theory Spec2Isabelle
  imports Complex_Main "HOL-Library.Sublist"
begin

section \<open>Python values shared by the models\<close>

text \<open>
  The exceptions that the modelled code raises or handles by class. \<open>SystemExit\<close> and
  \<open>KeyboardInterrupt\<close> derive from \<open>BaseException\<close> only; every other constructor stands
  for a subclass of \<open>Exception\<close>. A bare \<open>except:\<close> of Python 2 catches all of them.
\<close>

datatype exn =
    SystemExit int
  | KeyboardInterrupt
  | DMError
  | ADBError string
  | CalledProcessError
  | AlreadyInstalledException
  | IOError
  | WaitTimeout
  | KeyError string
  | ValueError
  | NameError
  | OtherError string

fun is_Exception :: "exn \<Rightarrow> bool" where
  "is_Exception (SystemExit c) = False"
| "is_Exception KeyboardInterrupt = False"
| "is_Exception e = True"

section \<open>harness.py: TestRunner.build\_command\<close>

subsection \<open>String helpers\<close>

text \<open>\<open>sep.join(xs)\<close>\<close>

fun py_join :: "string \<Rightarrow> string list \<Rightarrow> string" where
  "py_join sep [] = []"
| "py_join sep [x] = x"
| "py_join sep (x # y # ys) = x @ sep @ py_join sep (y # ys)"

text \<open>\<open>item.replace("/", "-")\<close>: both strings are one character long.\<close>

definition replace_slash :: "string \<Rightarrow> string" where
  "replace_slash item = map (\<lambda>c. if c = CHR ''/'' then CHR ''-'' else c) item"

text \<open>
  \<open>item % subn\<close> with a dictionary on the right. The scanner follows CPython's
  formatting loop: a \<open>%\<close> opens a specifier; \<open>%(key)\<close> reads the key up to the balancing
  parenthesis and looks it up at once (a missing key is a \<open>KeyError\<close> before the
  conversion character is read); the conversion \<open>s\<close> inserts the value and \<open>%\<close> a
  percent sign; a template that ends inside a specifier is a \<open>ValueError\<close>. The
  dictionary's values are held as the strings that \<open>str\<close> gives for them. Flags, widths
  and the other conversion types are outside the modelled fragment and reported as
  \<open>FmtUnmodelled\<close>, which is not a Python outcome.
\<close>

datatype fmt_error = FmtKeyError string | FmtValueError | FmtUnmodelled

datatype fmt_mode = Plain | Percent | InKey nat string | Conv string

fun fmt_cons :: "string \<Rightarrow> fmt_error + string \<Rightarrow> fmt_error + string" where
  "fmt_cons v (Inl e) = Inl e"
| "fmt_cons v (Inr s) = Inr (v @ s)"

fun pct_scan :: "(string \<rightharpoonup> string) \<Rightarrow> fmt_mode \<Rightarrow> string \<Rightarrow> fmt_error + string" where
  "pct_scan d Plain [] = Inr []"
| "pct_scan d Plain (c # cs) =
     (if c = CHR ''%'' then pct_scan d Percent cs else fmt_cons [c] (pct_scan d Plain cs))"
| "pct_scan d Percent [] = Inl FmtValueError"
| "pct_scan d Percent (c # cs) =
     (if c = CHR ''('' then pct_scan d (InKey 0 []) cs
      else if c = CHR ''%'' then fmt_cons [c] (pct_scan d Plain cs)
      else Inl FmtUnmodelled)"
| "pct_scan d (InKey n k) [] = Inl FmtValueError"
| "pct_scan d (InKey n k) (c # cs) =
     (if c = CHR '')'' then
        (case n of
           0 \<Rightarrow> (case d k of None \<Rightarrow> Inl (FmtKeyError k) | Some v \<Rightarrow> pct_scan d (Conv v) cs)
         | Suc m \<Rightarrow> pct_scan d (InKey m (k @ [c])) cs)
      else if c = CHR ''('' then pct_scan d (InKey (Suc n) (k @ [c])) cs
      else pct_scan d (InKey n (k @ [c])) cs)"
| "pct_scan d (Conv v) [] = Inl FmtValueError"
| "pct_scan d (Conv v) (c # cs) =
     (if c = CHR ''s'' then fmt_cons v (pct_scan d Plain cs)
      else if c = CHR ''%'' then fmt_cons [c] (pct_scan d Plain cs)
      else Inl FmtUnmodelled)"

definition pct_format :: "string \<Rightarrow> (string \<rightharpoonup> string) \<Rightarrow> fmt_error + string" where
  "pct_format item subn = pct_scan subn Plain item"

text \<open>\<open>[item % subn for item in items]\<close>: the first failing item raises.\<close>

fun pct_format_all :: "string list \<Rightarrow> (string \<rightharpoonup> string) \<Rightarrow> fmt_error + string list" where
  "pct_format_all [] subn = Inr []"
| "pct_format_all (item # items) subn =
     (case pct_format item subn of
        Inl e \<Rightarrow> Inl e
      | Inr s \<Rightarrow> (case pct_format_all items subn of Inl e \<Rightarrow> Inl e | Inr ss \<Rightarrow> Inr (s # ss)))"

subsection \<open>Configuration\<close>

text \<open>
  One entry of \<open>config["suites"]\<close>. A field is \<open>None\<close> when the key is absent from the
  suite's dictionary: \<open>suite_opts['cmd']\<close> then raises, and \<open>suite_opts.get(key, [])\<close>
  gives the empty list.
\<close>

record suite_opts =
  cmd :: "string option"
  run_args :: "string list option"
  common_args :: "string list option"
  extra_files :: "string list option"

text \<open>
  The loaded configuration: \<open>suites\<close> is the ordered dictionary \<open>config["suites"]\<close>,
  \<open>entries\<close> the other top-level keys with the \<open>str\<close> of their values.
\<close>

record config =
  suites :: "(string \<times> suite_opts) list"
  entries :: "(string \<times> string) list"

definition opt_list :: "'a list option \<Rightarrow> 'a list" where
  "opt_list v = (case v of None \<Rightarrow> [] | Some xs \<Rightarrow> xs)"

text \<open>\<open>subn = self.config.copy(); del subn["suites"]; subn.update({"temp_dir": temp_dir})\<close>\<close>

definition make_subn :: "config \<Rightarrow> string \<Rightarrow> (string \<rightharpoonup> string)" where
  "make_subn cfg temp_dir = ((map_of (entries cfg)) (''suites'' := None)) (''temp_dir'' \<mapsto> temp_dir)"

definition log_name_of :: "string \<Rightarrow> string \<Rightarrow> string list \<Rightarrow> string" where
  "log_name_of temp_dir suite groups =
     temp_dir @ ''/'' @ suite @ ''_structured'' @ py_join ''_'' (map replace_slash groups) @ ''.log''"

text \<open>
  \<open>build_command\<close> returns \<open>(cmd, output_files, log_name)\<close> or raises: \<open>KeyError\<close> for a
  suite that is not configured or has no \<open>cmd\<close>, and whatever a template raises.
\<close>

definition build_command ::
  "config \<Rightarrow> string \<Rightarrow> string list \<Rightarrow> string \<Rightarrow> fmt_error + (string list \<times> string list \<times> string)" where
  "build_command cfg suite groups temp_dir =
     (case map_of (suites cfg) suite of
        None \<Rightarrow> Inl (FmtKeyError suite)
      | Some suite_opts \<Rightarrow>
         (let subn = make_subn cfg temp_dir in
          case cmd suite_opts of
            None \<Rightarrow> Inl (FmtKeyError ''cmd'')
          | Some c \<Rightarrow>
             (let log_name = log_name_of temp_dir suite groups;
                  cmd1 = [c] @ [''--log-raw='' @ log_name, ''--log-mach=-''];
                  cmd2 = (if groups \<noteq> [] then cmd1 @ map (\<lambda>g. ''--include='' @ g) groups else cmd1)
              in case pct_format_all (opt_list (run_args suite_opts)) subn of
                   Inl e \<Rightarrow> Inl e
                 | Inr ra \<Rightarrow>
                    (case pct_format_all (opt_list (common_args suite_opts)) subn of
                       Inl e \<Rightarrow> Inl e
                     | Inr ca \<Rightarrow>
                        (case pct_format_all (opt_list (extra_files suite_opts)) subn of
                           Inl e \<Rightarrow> Inl e
                         | Inr ef \<Rightarrow> Inr (cmd2 @ ra @ ca, [log_name] @ ef, log_name))))))"

text \<open>The suite of the example: \<open>{cmd: "run_x", run_args: ["--out=%(temp_dir)s"], common_args: []}\<close>.\<close>

definition run_x_opts :: suite_opts where
  "run_x_opts = \<lparr>cmd = Some ''run_x'', run_args = Some [''--out=%(temp_dir)s''],
                 common_args = Some [], extra_files = None\<rparr>"

section \<open>Effects: external calls, exceptions, traces\<close>

text \<open>
  The code drives a device, a zip archive, sub-processes and servers through library
  calls. A run is modelled by the list of external calls it issues, in order. What a call
  does is the environment's choice: \<open>raises E tr c\<close> says whether the call \<open>c\<close>, issued
  after the calls \<open>tr\<close>, raises (and what), so that an outcome may depend on everything
  that happened before. A call is recorded whether it returns or raises. Logging calls
  are not recorded. They are taken to succeed where the logger is an attribute
  (\<open>self.logger\<close>) and in harness.py, whose global \<open>logger\<close> is set by \<open>setup_logging\<close>
  at the start of \<open>run_tests\<close>; the global \<open>logger\<close> of adb\_device\_interface.py is
  modelled with the precondition pipeline of that module.
\<close>

datatype event =
    \<comment> \<open>mozdevice.DeviceManagerADB, used by harness.py\<close>
    DM_create
  | DM_remount
  | DM_removeFile string
  | DM_pushFile string string
  | DM_removeDir string
  | DM_pushDir string string
  | DM_reboot bool
  | DM_getDirectory string string
  | DM_getFile string string
  | DM_netcfg
  | DM_forward
  | DM_getLogcat
    \<comment> \<open>ADBB2G, used by adb\_device\_interface.py\<close>
  | ADB_remount
  | ADB_rm string bool
  | ADB_push string string
  | ADB_reboot
  | ADB_restart
  | ADB_get_process_list
  | ADB_wait_for_net
  | ADB_curl nat
    \<comment> \<open>the zip archive, the structured log and the reports of LogManager\<close>
  | Zip_open
  | Zip_write string "string option"
  | Zip_writestr string
  | Zip_close
  | Log_open
  | Log_close
  | Os_unlink string
  | Report_parse_log string
  | Report_summary
  | Report_subsuite
  | Setup_logging
  | Get_metadata
    \<comment> \<open>marionette, the probe server, the host\<close>
  | Marionette_install
  | Marionette_create
  | Marionette_start_session
  | Marionette_navigate nat
  | Marionette_go_back
  | Wait_b2g_ready
  | Session_enter
  | Settings_set string
  | Session_exit
  | Server_start nat
  | Server_stop nat
  | Get_ip
  | Adb_forward_list
  | Time_sleep nat
    \<comment> \<open>the local staging directory of DeviceBackup\<close>
  | Mkdtemp
  | Path_exists string
  | Makedirs string
  | Rmtree string
    \<comment> \<open>one suite: its temporary directory and its process\<close>
  | Enter_run_suite string
  | Tempdir_enter
  | Tempdir_exit string
  | Proc_create "string list"
  | Proc_run
  | Proc_wait
  | Proc_kill

datatype 'a result = Returns 'a | Raises exn

text \<open>
  Besides \<open>raises\<close>, the environment answers the calls whose value the code uses, again
  as a function of the calls made before: whether \<open>netcfg\<close> lists an interface that is
  up with an address, the directories that \<open>mkdtemp\<close> and \<open>TemporaryDirectory\<close> create,
  whether a local path exists, what \<open>report.parse_log\<close> finds in a log (\<open>is_pass\<close> and
  \<open>name\<close>), and the device's process list as \<open>(pid, name, user)\<close>.
\<close>

record env =
  raises :: "event list \<Rightarrow> event \<Rightarrow> exn option"
  netcfg_up :: "event list \<Rightarrow> bool"
  mkdtemp_path :: "event list \<Rightarrow> string"
  tempdir_path :: "event list \<Rightarrow> string"
  path_exists :: "event list \<Rightarrow> string \<Rightarrow> bool"
  log_is_pass :: "event list \<Rightarrow> string \<Rightarrow> bool"
  log_name :: "event list \<Rightarrow> string \<Rightarrow> string"
  process_list :: "event list \<Rightarrow> (string \<times> string \<times> string) list"

type_synonym 'a prog = "event list \<Rightarrow> 'a result \<times> event list"

definition ret :: "'a \<Rightarrow> 'a prog" where
  "ret x tr = (Returns x, tr)"

definition raise :: "exn \<Rightarrow> 'a prog" where
  "raise e tr = (Raises e, tr)"

definition call :: "env \<Rightarrow> event \<Rightarrow> unit prog" where
  "call E c tr = (case raises E tr c of None \<Rightarrow> (Returns (), tr @ [c]) | Some e \<Rightarrow> (Raises e, tr @ [c]))"

text \<open>A call whose value is used: \<open>val tr\<close> is the environment's answer after the calls \<open>tr\<close>.\<close>

definition ask :: "env \<Rightarrow> event \<Rightarrow> (event list \<Rightarrow> 'a) \<Rightarrow> 'a prog" where
  "ask E c val tr =
     (case raises E tr c of None \<Rightarrow> (Returns (val tr), tr @ [c]) | Some e \<Rightarrow> (Raises e, tr @ [c]))"

text \<open>
  A mark in the trace that is not an external call and cannot raise. The only one is
  \<open>Enter_run_suite suite\<close>, put down when \<open>runner.run_suite\<close> is entered for \<open>suite\<close>.
\<close>

definition mark :: "event \<Rightarrow> unit prog" where
  "mark c tr = (Returns (), tr @ [c])"

text \<open>\<open>x = m; f x\<close>: the rest runs only if \<open>m\<close> returns.\<close>

definition bnd :: "'a prog \<Rightarrow> ('a \<Rightarrow> 'b prog) \<Rightarrow> 'b prog" where
  "bnd m f tr = (case m tr of (Returns x, tr') \<Rightarrow> f x tr' | (Raises e, tr') \<Rightarrow> (Raises e, tr'))"

text \<open>A block of statements, run in order up to the first that raises.\<close>

fun block :: "unit prog list \<Rightarrow> unit prog" where
  "block [] = ret ()"
| "block (m # ms) = bnd m (\<lambda>_. block ms)"

text \<open>\<open>for x in xs: body(x)\<close>\<close>

fun for_each :: "('a \<Rightarrow> unit prog) \<Rightarrow> 'a list \<Rightarrow> unit prog" where
  "for_each body [] = ret ()"
| "for_each body (x # xs) = bnd (body x) (\<lambda>_. for_each body xs)"

text \<open>
  \<open>try: m finally: fin\<close>: \<open>fin\<close> always runs; if it raises, its exception replaces the
  outcome of \<open>m\<close>.
\<close>

definition try_finally :: "'a prog \<Rightarrow> unit prog \<Rightarrow> 'a prog" where
  "try_finally m fin tr =
     (case m tr of (r, tr') \<Rightarrow>
        (case fin tr' of (Returns u, tr'') \<Rightarrow> (r, tr'') | (Raises e, tr'') \<Rightarrow> (Raises e, tr'')))"

text \<open>
  \<open>try: m except ...: h\<close>: \<open>h e\<close> is \<open>None\<close> when no clause matches the exception \<open>e\<close>,
  which then propagates.
\<close>

definition try_except :: "'a prog \<Rightarrow> (exn \<Rightarrow> 'a prog option) \<Rightarrow> 'a prog" where
  "try_except m h tr =
     (case m tr of
        (Returns x, tr') \<Rightarrow> (Returns x, tr')
      | (Raises e, tr') \<Rightarrow> (case h e of None \<Rightarrow> (Raises e, tr') | Some k \<Rightarrow> k tr'))"

section \<open>Paths\<close>

text \<open>\<open>remote.lstrip("/")\<close>\<close>

definition lstrip_slash :: "string \<Rightarrow> string" where
  "lstrip_slash s = dropWhile (\<lambda>c. c = CHR ''/'') s"

text \<open>\<open>os.path.join(a, b)\<close> of posixpath\<close>

definition path_join :: "string \<Rightarrow> string \<Rightarrow> string" where
  "path_join a b =
     (if (case b of [] \<Rightarrow> False | c # cs \<Rightarrow> c = CHR ''/'') then b
      else if a = [] \<or> last a = CHR ''/'' then a @ b
      else a @ ''/'' @ b)"

text \<open>
  \<open>remote_dir, filename = remote_path.rsplit("/", 1)\<close>: without a slash the split has one
  part and the unpacking raises \<open>ValueError\<close>; the model gives \<open>None\<close>.
\<close>

definition rsplit_slash :: "string \<Rightarrow> (string \<times> string) option" where
  "rsplit_slash s =
     (if CHR ''/'' \<in> set s
      then Some (rev (tl (dropWhile (\<lambda>c. c \<noteq> CHR ''/'') (rev s))),
                 rev (takeWhile (\<lambda>c. c \<noteq> CHR ''/'') (rev s)))
      else None)"

section \<open>DeviceBackup.restore, in harness.py and in adb\_device\_interface.py\<close>

record device_backup =
  backup_dirs :: "string list"
  backup_files :: "string list"
  backup_path :: string

text \<open>\<open>DeviceBackup.__init__\<close> of harness.py; \<open>backup_path\<close> is set by \<open>__enter__\<close>.\<close>

definition harness_DeviceBackup :: "string \<Rightarrow> device_backup" where
  "harness_DeviceBackup path =
     \<lparr>backup_dirs = [''/data/local'', ''/data/b2g/mozilla''],
      backup_files = [''/system/etc/hosts''],
      backup_path = path\<rparr>"

text \<open>\<open>DeviceBackup.__init__(backup_dirs=None, backup_files=None)\<close> of adb\_device\_interface.py\<close>

definition adb_DeviceBackup :: "string list option \<Rightarrow> string list option \<Rightarrow> string \<Rightarrow> device_backup" where
  "adb_DeviceBackup dirs files path =
     \<lparr>backup_dirs = (case dirs of None \<Rightarrow> [''/data/local'', ''/data/b2g/mozilla''] | Some ds \<Rightarrow> ds),
      backup_files = (case files of None \<Rightarrow> [''/system/etc/hosts''] | Some fs \<Rightarrow> fs),
      backup_path = path\<rparr>"

definition local_dir :: "device_backup \<Rightarrow> string \<Rightarrow> string" where
  "local_dir self remote = path_join (backup_path self) (lstrip_slash remote)"

text \<open>The body of the loop over \<open>backup_files\<close> in harness.py.\<close>

definition restore_file :: "env \<Rightarrow> device_backup \<Rightarrow> string \<Rightarrow> unit prog" where
  "restore_file E self remote_path =
     (case rsplit_slash remote_path of
        None \<Rightarrow> raise ValueError
      | Some (remote_dir, filename) \<Rightarrow>
          (let local_path = path_join (local_dir self remote_dir) filename in
           block [call E (DM_removeFile remote_path),
                  call E (DM_pushFile local_path remote_path)]))"

text \<open>The body of the loop over \<open>backup_dirs\<close> in harness.py.\<close>

definition restore_dir :: "env \<Rightarrow> device_backup \<Rightarrow> string \<Rightarrow> unit prog" where
  "restore_dir E self remote_path =
     (let local_path = local_dir self remote_path in
      block [call E (DM_removeDir remote_path),
             call E (DM_pushDir local_path remote_path)])"

text \<open>\<open>DeviceBackup.restore\<close> of harness.py\<close>

definition restore :: "env \<Rightarrow> device_backup \<Rightarrow> unit prog" where
  "restore E self =
     block [call E DM_remount,
            for_each (restore_file E self) (backup_files self),
            for_each (restore_dir E self) (backup_dirs self),
            call E (DM_reboot True)]"

text \<open>The same loops in adb\_device\_interface.py, on the \<open>ADBB2G\<close> device.\<close>

definition adb_restore_file :: "env \<Rightarrow> device_backup \<Rightarrow> string \<Rightarrow> unit prog" where
  "adb_restore_file E self remote_path =
     (case rsplit_slash remote_path of
        None \<Rightarrow> raise ValueError
      | Some (remote_dir, filename) \<Rightarrow>
          (let local_path = path_join (local_dir self remote_dir) filename in
           block [call E (ADB_rm remote_path False),
                  call E (ADB_push local_path remote_path)]))"

definition adb_restore_dir :: "env \<Rightarrow> device_backup \<Rightarrow> string \<Rightarrow> unit prog" where
  "adb_restore_dir E self remote_path =
     (let local_path = local_dir self remote_path in
      block [call E (ADB_rm remote_path True),
             call E (ADB_push local_path remote_path)])"

text \<open>\<open>DeviceBackup.restore\<close> of adb\_device\_interface.py\<close>

definition adb_restore :: "env \<Rightarrow> device_backup \<Rightarrow> unit prog" where
  "adb_restore E self =
     block [call E ADB_remount,
            for_each (adb_restore_file E self) (backup_files self),
            for_each (adb_restore_dir E self) (backup_dirs self)]"

subsection \<open>The restore sequence in the specification's words\<close>

text \<open>
  The staged copy of a backed-up file: \<open>os.path.join(self.local_dir(remote_dir), filename)\<close>.
\<close>

definition local_file :: "device_backup \<Rightarrow> string \<Rightarrow> string" where
  "local_file self remote_path =
     (case rsplit_slash remote_path of
        None \<Rightarrow> []
      | Some (remote_dir, filename) \<Rightarrow> path_join (local_dir self remote_dir) filename)"

text \<open>
  Remount; then, for each backed-up file, remove the live copy and push the staged copy;
  then, for each backed-up directory, remove the live copy recursively and push the
  staged tree.
\<close>

definition spec_file_steps :: "device_backup \<Rightarrow> event list" where
  "spec_file_steps self =
     concat (map (\<lambda>p. [DM_removeFile p, DM_pushFile (local_file self p) p]) (backup_files self))"

definition spec_dir_steps :: "device_backup \<Rightarrow> event list" where
  "spec_dir_steps self =
     concat (map (\<lambda>p. [DM_removeDir p, DM_pushDir (local_dir self p) p]) (backup_dirs self))"

definition spec_restore :: "device_backup \<Rightarrow> event list" where
  "spec_restore self = [DM_remount] @ spec_file_steps self @ spec_dir_steps self"

definition adb_spec_file_steps :: "device_backup \<Rightarrow> event list" where
  "adb_spec_file_steps self =
     concat (map (\<lambda>p. [ADB_rm p False, ADB_push (local_file self p) p]) (backup_files self))"

definition adb_spec_dir_steps :: "device_backup \<Rightarrow> event list" where
  "adb_spec_dir_steps self =
     concat (map (\<lambda>p. [ADB_rm p True, ADB_push (local_dir self p) p]) (backup_dirs self))"

definition adb_spec_restore :: "device_backup \<Rightarrow> event list" where
  "adb_spec_restore self = [ADB_remount] @ adb_spec_file_steps self @ adb_spec_dir_steps self"

section \<open>Reading traces\<close>

text \<open>The calls that running \<open>m\<close> after the calls \<open>tr\<close> adds to the trace.\<close>

definition issued :: "'a prog \<Rightarrow> event list \<Rightarrow> event list" where
  "issued m tr = drop (length tr) (snd (m tr))"

text \<open>
  \<open>follows m script\<close>: whenever \<open>m\<close> runs, the calls it issues are an initial segment of
  \<open>script\<close>, and the whole of it if \<open>m\<close> returns.
\<close>

definition follows :: "unit prog \<Rightarrow> event list \<Rightarrow> bool" where
  "follows m script \<longleftrightarrow>
     (\<forall>tr. \<exists>new. snd (m tr) = tr @ new \<and> prefix new script \<and> (fst (m tr) = Returns () \<longrightarrow> new = script))"

text \<open>
  Steps that restore a file and steps that restore a directory. \<open>ADBB2G.push\<close> serves
  both and is neither.
\<close>

fun is_file_step :: "event \<Rightarrow> bool" where
  "is_file_step (DM_removeFile p) = True"
| "is_file_step (DM_pushFile l p) = True"
| "is_file_step (ADB_rm p recursive) = (\<not> recursive)"
| "is_file_step c = False"

fun is_dir_step :: "event \<Rightarrow> bool" where
  "is_dir_step (DM_removeDir p) = True"
| "is_dir_step (DM_pushDir l p) = True"
| "is_dir_step (ADB_rm p recursive) = recursive"
| "is_dir_step c = False"

text \<open>No step on a file comes after a step on a directory.\<close>

definition files_first :: "event list \<Rightarrow> bool" where
  "files_first cs = sorted_wrt (\<lambda>a b. is_dir_step a \<longrightarrow> \<not> is_file_step b) cs"

text \<open>
  An environment in which no call raises, the network is up, no local path exists yet,
  every log reports a pass and \<open>adbd\<close> runs as root.
\<close>

definition quiet :: env where
  "quiet = \<lparr>raises = (\<lambda>tr c. None), netcfg_up = (\<lambda>tr. True),
            mkdtemp_path = (\<lambda>tr. ''/tmp/tmpQ''), tempdir_path = (\<lambda>tr. ''/tmp/tmpS''),
            path_exists = (\<lambda>tr p. False), log_is_pass = (\<lambda>tr p. True),
            log_name = (\<lambda>tr p. ''suite''),
            process_list = (\<lambda>tr. [(''1'', ''/init'', ''root''), (''87'', ''/sbin/adbd'', ''root'')])\<rparr>"

section \<open>adb\_device\_interface.py: poll\_wait\<close>

text \<open>
  Python values as far as their truth value matters: \<open>get_ip_address\<close> gives a string or
  \<open>None\<close>, the other predicates a boolean.
\<close>

datatype pyval = PyNone | PyBool bool | PyInt int | PyStr string

fun truthy :: "pyval \<Rightarrow> bool" where
  "truthy PyNone = False"
| "truthy (PyBool b) = b"
| "truthy (PyInt i) = (i \<noteq> 0)"
| "truthy (PyStr s) = (s \<noteq> [])"

text \<open>
  What \<open>poll_wait\<close> is given and what it runs on. The predicate \<open>func\<close> and the callback
  \<open>after_first\<close> act on the device; the model takes their behaviour as data: \<open>func E n\<close>
  is what the evaluation number \<open>n\<close> (from 0) returns or raises, \<open>after_first_raises E\<close>
  what the callback raises, if anything. \<open>now E i\<close> is the value of the call number \<open>i\<close>
  (from 0) of \<open>time.time()\<close>: the clock is the environment's, and nothing is assumed
  about it. A float is modelled by the real number it denotes. Comparison and the
  maximum with 0 are exact on floats; addition and subtraction round, so they are the
  environment's functions \<open>fadd\<close> and \<open>fsub\<close>, about which nothing is assumed either.
\<close>

record pw_env =
  func :: "nat \<Rightarrow> pyval result"
  after_first_raises :: "exn option"
  now :: "nat \<Rightarrow> real"
  fsub :: "real \<Rightarrow> real \<Rightarrow> real"
  fadd :: "real \<Rightarrow> real \<Rightarrow> real"

text \<open>
  The state that \<open>poll_wait\<close> changes: how often the clock has been read, how often the
  predicate and the callback have been called, and the arguments of the calls of
  \<open>time.sleep\<close>.
\<close>

record pw_world =
  reads :: nat
  polls :: nat
  callbacks :: nat
  sleeps :: "real list"

text \<open>\<open>time.time()\<close>\<close>

definition time_time :: "pw_env \<Rightarrow> pw_world \<Rightarrow> real \<times> pw_world" where
  "time_time E w = (now E (reads w), w\<lparr>reads := reads w + 1\<rparr>)"

text \<open>\<open>value = func()\<close>\<close>

definition call_func :: "pw_env \<Rightarrow> pw_world \<Rightarrow> pyval result \<times> pw_world" where
  "call_func E w = (func E (polls w), w\<lparr>polls := polls w + 1\<rparr>)"

text \<open>\<open>after_first()\<close>\<close>

definition call_after_first :: "pw_env \<Rightarrow> pw_world \<Rightarrow> unit result \<times> pw_world" where
  "call_after_first E w =
     ((case after_first_raises E of None \<Rightarrow> Returns () | Some e \<Rightarrow> Raises e),
      w\<lparr>callbacks := callbacks w + 1\<rparr>)"

text \<open>\<open>time.sleep(s)\<close>\<close>

definition time_sleep :: "real \<Rightarrow> pw_world \<Rightarrow> pw_world" where
  "time_sleep s w = w\<lparr>sleeps := sleeps w @ [s]\<rparr>"

text \<open>
  The \<open>while\<close> loop of \<open>poll_wait\<close>, with the final \<open>raise WaitTimeout()\<close>. The loop need
  not end (a clock that stands still and a predicate that never holds); \<open>None\<close> is the
  run that never returns. \<open>has_after_first\<close> is \<open>after_first is not None\<close>.
\<close>

partial_function (option) poll_loop ::
  "pw_env \<Rightarrow> real \<Rightarrow> real \<Rightarrow> bool \<Rightarrow> real \<Rightarrow> real \<Rightarrow> bool \<Rightarrow> pw_world
     \<Rightarrow> (pyval result \<times> pw_world) option" where
  "poll_loop E polling_interval timeout has_after_first start_time current_time ran_first w =
     (if fsub E current_time start_time < timeout then
        (case call_func E w of
           (Raises e, w1) \<Rightarrow> Some (Raises e, w1)
         | (Returns val, w1) \<Rightarrow>
             if truthy val then Some (Returns val, w1)
             else
               (case (if \<not> ran_first \<and> has_after_first then call_after_first E w1
                      else (Returns (), w1)) of
                  (Raises e, w2) \<Rightarrow> Some (Raises e, w2)
                | (Returns u, w2) \<Rightarrow>
                    (let t = fst (time_time E w2);
                         w3 = snd (time_time E w2);
                         sleep = max (fsub E (fadd E current_time polling_interval) t) 0;
                         w4 = time_sleep sleep w3;
                         current_time' = fst (time_time E w4);
                         w5 = snd (time_time E w4)
                     in poll_loop E polling_interval timeout has_after_first start_time
                          current_time' True w5)))
      else Some (Raises WaitTimeout, w))"

text \<open>
  \<open>poll_wait(func, polling_interval, timeout, after_first)\<close>: the first two readings of
  the clock are \<open>start_time\<close> and the first \<open>current_time\<close>.
\<close>

definition poll_wait ::
  "pw_env \<Rightarrow> real \<Rightarrow> real \<Rightarrow> bool \<Rightarrow> (pyval result \<times> pw_world) option" where
  "poll_wait E polling_interval timeout has_after_first =
     (let w0 = \<lparr>reads = 0, polls = 0, callbacks = 0, sleeps = []\<rparr>;
          start_time = fst (time_time E w0);
          w1 = snd (time_time E w0);
          current_time = fst (time_time E w1);
          w2 = snd (time_time E w1)
      in poll_loop E polling_interval timeout has_after_first start_time current_time False w2)"

subsection \<open>The polls of a run\<close>

text \<open>
  As long as the loop goes on, the loop test number \<open>k\<close> (from 0) compares with the
  reading number \<open>2 k + 1\<close> of the clock, which is also when the evaluation number \<open>k\<close> of
  the predicate starts; the reading number \<open>2 k + 2\<close> is the one in the computation of
  the sleep. \<open>elapsed E k\<close> is the elapsed time that the code computes for its test:
  \<open>current_time - start_time\<close>.
\<close>

definition poll_time :: "pw_env \<Rightarrow> nat \<Rightarrow> real" where
  "poll_time E k = now E (2 * k + 1)"

definition elapsed :: "pw_env \<Rightarrow> nat \<Rightarrow> real" where
  "elapsed E k = fsub E (poll_time E k) (now E 0)"

text \<open>The argument of \<open>time.sleep\<close> in the iteration number \<open>k\<close>.\<close>

definition sleep_of :: "pw_env \<Rightarrow> real \<Rightarrow> nat \<Rightarrow> real" where
  "sleep_of E polling_interval k =
     max (fsub E (fadd E (poll_time E k) polling_interval) (now E (2 * k + 2))) 0"

text \<open>The state in which the evaluation number \<open>k\<close> starts.\<close>

definition world_at :: "pw_env \<Rightarrow> real \<Rightarrow> bool \<Rightarrow> nat \<Rightarrow> pw_world" where
  "world_at E polling_interval has_after_first k =
     \<lparr>reads = 2 * k + 2, polls = k,
      callbacks = (if has_after_first \<and> 0 < k then 1 else 0),
      sleeps = map (sleep_of E polling_interval) [0..<k]\<rparr>"

text \<open>The evaluation number \<open>k\<close> returns a value that is not truthy.\<close>

definition falsy_at :: "pw_env \<Rightarrow> nat \<Rightarrow> bool" where
  "falsy_at E k = (case func E k of Returns v \<Rightarrow> \<not> truthy v | Raises e \<Rightarrow> False)"

subsection \<open>Example predicates and clocks\<close>

text \<open>
  A clock for a predicate and a callback that take no time and a sleep that sleeps as
  long as asked, with a polling interval of one second: the loop test number \<open>k\<close> and
  the reading before the sleep that follows it both show \<open>k\<close> seconds.
\<close>

definition steady_clock :: "nat \<Rightarrow> real" where
  "steady_clock i = real ((i - 1) div 2)"

text \<open>A predicate that holds at once.\<close>

definition ready_env :: pw_env where
  "ready_env = \<lparr>func = (\<lambda>n. Returns (PyBool True)), after_first_raises = None,
                now = steady_clock, fsub = (-), fadd = (+)\<rparr>"

text \<open>A predicate that never holds.\<close>

definition idle_env :: pw_env where
  "idle_env = \<lparr>func = (\<lambda>n. Returns (PyBool False)), after_first_raises = None,
               now = steady_clock, fsub = (-), fadd = (+)\<rparr>"

text \<open>A predicate that never holds and takes 100 seconds to say so.\<close>

definition slow_env :: pw_env where
  "slow_env = \<lparr>func = (\<lambda>n. Returns (PyBool False)), after_first_raises = None,
               now = (\<lambda>i. if i < 2 then 0 else 100), fsub = (-), fadd = (+)\<rparr>"

text \<open>An address query that answers at its third evaluation.\<close>

definition third_env :: pw_env where
  "third_env = \<lparr>func = (\<lambda>n. if n < 2 then Returns PyNone else Returns (PyStr ''10.0.0.2'')),
                after_first_raises = None,
                now = steady_clock, fsub = (-), fadd = (+)\<rparr>"

text \<open>A predicate whose first evaluation raises, and a callback that raises.\<close>

definition broken_env :: pw_env where
  "broken_env = \<lparr>func = (\<lambda>n. if n = 0 then Raises (OtherError ''device offline'')
                              else Returns (PyBool True)),
                 after_first_raises = None,
                 now = steady_clock, fsub = (-), fadd = (+)\<rparr>"

definition broken_callback_env :: pw_env where
  "broken_callback_env = \<lparr>func = (\<lambda>n. Returns (PyBool (0 < n))),
                          after_first_raises = Some (OtherError ''start failed''),
                          now = steady_clock, fsub = (-), fadd = (+)\<rparr>"

text \<open>
  A clock for a polling interval of \<open>0.1\<close> that reads \<open>0.7999999999999999\<close>, the float
  sum of eight times \<open>0.1\<close>, at the loop test number 8. The predicate holds from \<open>0.8\<close>
  seconds on, which its evaluation number 9 is the first to see.
\<close>

definition rounded_env :: pw_env where
  "rounded_env = \<lparr>func = (\<lambda>n. Returns (PyBool (9 \<le> n))), after_first_raises = None,
                  now = (\<lambda>i. if i = 17 then 7999999999999999 / 10 ^ 16
                             else real ((i - 1) div 2) / 10),
                  fsub = (-), fadd = (+)\<rparr>"

text \<open>A predicate that always raises.\<close>

definition failing_env :: pw_env where
  "failing_env = \<lparr>func = (\<lambda>n. Raises (OtherError ''device offline'')),
                  after_first_raises = None,
                  now = steady_clock, fsub = (-), fadd = (+)\<rparr>"

text \<open>A predicate that never holds, under a clock that stands still.\<close>

definition frozen_env :: pw_env where
  "frozen_env = \<lparr>func = (\<lambda>n. Returns (PyBool False)), after_first_raises = None,
                 now = (\<lambda>i. 0), fsub = (-), fadd = (+)\<rparr>"

section \<open>harness.py: the precondition checks\<close>

text \<open>\<open>try: m except: pass\<close>\<close>

definition swallow :: "unit prog \<Rightarrow> unit prog" where
  "swallow m = try_except m (\<lambda>e. Some (ret ()))"

text \<open>\<open>check_adb\<close>: a \<open>DMError\<close> from the constructor is a failed check.\<close>

definition check_adb :: "env \<Rightarrow> bool prog" where
  "check_adb E =
     try_except (bnd (call E DM_create) (\<lambda>_. ret True))
       (\<lambda>e. if e = DMError then Some (ret False) else None)"

text \<open>
  \<open>install_marionette(version)\<close>: the device manager is made outside the \<open>try\<close>;
  \<open>AlreadyInstalledException\<close> is success, \<open>CalledProcessError\<close> a failed check.
\<close>

definition install_marionette :: "env \<Rightarrow> string \<Rightarrow> bool prog" where
  "install_marionette E version =
     bnd (call E DM_create) (\<lambda>_.
       try_except
         (bnd (try_except (block [call E Marionette_install, call E (Time_sleep 10)])
                 (\<lambda>e. if e = AlreadyInstalledException then Some (ret ()) else None))
              (\<lambda>_. ret True))
         (\<lambda>e. if e = CalledProcessError then Some (ret False) else None))"

text \<open>
  The \<open>while not active and time_out < 40\<close> loop of \<open>check_network\<close>; \<open>n\<close> is
  \<open>40 - time_out\<close>. Each round asks \<open>netcfg\<close>, then sleeps one second.
\<close>

fun check_network_loop :: "env \<Rightarrow> nat \<Rightarrow> bool prog" where
  "check_network_loop E 0 = ret False"
| "check_network_loop E (Suc n) =
     bnd (ask E DM_netcfg (netcfg_up E)) (\<lambda>active.
       bnd (call E (Time_sleep 1)) (\<lambda>_.
         if active then ret True else check_network_loop E n))"

definition check_network :: "env \<Rightarrow> bool prog" where
  "check_network E = bnd (call E DM_create) (\<lambda>_. check_network_loop E 40)"

text \<open>
  The loop over the ports in \<open>check_server\<close> of harness.py. A server that does not
  start, or a page that does not load, is \<open>return False\<close>; the \<open>finally\<close> clause goes
  back and stops the server in both cases; after the last port the function returns
  \<open>True\<close>.
\<close>

fun check_server_ports :: "env \<Rightarrow> nat list \<Rightarrow> bool prog" where
  "check_server_ports E [] = ret True"
| "check_server_ports E (port # ports) =
     bnd (try_except (bnd (call E (Server_start port)) (\<lambda>_. ret True)) (\<lambda>e. Some (ret False)))
       (\<lambda>started.
          if \<not> started then ret False
          else
            bnd (try_finally
                   (try_except (bnd (call E (Marionette_navigate port)) (\<lambda>_. ret True))
                      (\<lambda>e. Some (ret False)))
                   (block [call E Marionette_go_back, call E (Server_stop port)]))
              (\<lambda>loaded. if \<not> loaded then ret False else check_server_ports E ports))"

text \<open>The handler of both session errors: log, try to fetch the logcat, \<open>return False\<close>.\<close>

definition logcat_and_fail :: "env \<Rightarrow> bool prog" where
  "logcat_and_fail E = bnd (swallow (call E DM_getLogcat)) (\<lambda>_. ret False)"

text \<open>\<open>check_server\<close> of harness.py\<close>

definition check_server :: "env \<Rightarrow> bool prog" where
  "check_server E =
     bnd (block [call E DM_create, call E DM_forward, call E Adb_forward_list,
                 call E Marionette_create]) (\<lambda>_.
     bnd (try_except (bnd (call E Marionette_start_session) (\<lambda>_. ret True))
            (\<lambda>e. Some (logcat_and_fail E))) (\<lambda>session.
       if \<not> session then ret False
       else
         bnd (try_except (bnd (call E Wait_b2g_ready) (\<lambda>_. ret True))
                (\<lambda>e. if e = IOError then Some (logcat_and_fail E) else None)) (\<lambda>ready.
           if \<not> ready then ret False
           else bnd (call E Get_ip) (\<lambda>_. check_server_ports E [8000, 8001]))))"

text \<open>\<open>lambda: install_marionette(config['version'])\<close>\<close>

definition check_marionette_installed :: "env \<Rightarrow> config \<Rightarrow> bool prog" where
  "check_marionette_installed E cfg =
     (case map_of (entries cfg) ''version'' of
        None \<Rightarrow> raise (KeyError ''version'')
      | Some version \<Rightarrow> install_marionette E version)"

text \<open>
  One round of the loop in \<open>check_preconditions\<close>: an exception in the check is a failed
  check, and a failed check is \<open>sys.exit(1)\<close>.
\<close>

definition precondition_step :: "bool prog \<Rightarrow> unit prog" where
  "precondition_step precondition =
     bnd (try_except precondition (\<lambda>e. Some (ret False)))
       (\<lambda>passed. if \<not> passed then raise (SystemExit 1) else ret ())"

text \<open>
  \<open>check_preconditions\<close> of harness.py. Its last statement, after the loop and the
  message "Passed precondition checks", is \<open>sys.exit(1)\<close>.
\<close>

definition check_preconditions :: "env \<Rightarrow> config \<Rightarrow> unit prog" where
  "check_preconditions E cfg =
     bnd (for_each precondition_step
            [check_adb E, check_marionette_installed E cfg, check_network E, check_server E])
       (\<lambda>_. raise (SystemExit 1))"

section \<open>harness.py: LogManager\<close>

definition structured_path :: string where
  "structured_path = ''run.log''"

text \<open>\<open>LogManager.__enter__\<close>\<close>

definition LogManager_enter :: "env \<Rightarrow> unit prog" where
  "LogManager_enter E = block [call E Zip_open, call E Log_open]"

text \<open>\<open>LogManager.add_file(path, file_obj)\<close>\<close>

definition add_file :: "env \<Rightarrow> string \<Rightarrow> string \<Rightarrow> unit prog" where
  "add_file E path file_obj = call E (Zip_write path (Some file_obj))"

text \<open>
  \<open>LogManager.add_subsuite_report(path)\<close>; the list \<open>subsuite_results\<close>, which only feeds
  the summary, is not kept.
\<close>

definition add_subsuite_report :: "env \<Rightarrow> string \<Rightarrow> unit prog" where
  "add_subsuite_report E path =
     bnd (ask E (Report_parse_log path) (\<lambda>tr. (log_is_pass E tr path, log_name E tr path)))
       (\<lambda>(is_pass, name).
          if \<not> is_pass
          then block [call E Report_subsuite, call E (Zip_writestr (name @ ''/report.html''))]
          else ret ())"

text \<open>\<open>LogManager.add_summary_report(path)\<close>\<close>

definition add_summary_report :: "env \<Rightarrow> string \<Rightarrow> unit prog" where
  "add_summary_report E path =
     block [call E (Report_parse_log path), call E Report_summary,
            call E (Zip_writestr ''report.html'')]"

text \<open>\<open>LogManager.__exit__\<close>, with its two nested \<open>finally\<close> clauses.\<close>

definition LogManager_exit :: "env \<Rightarrow> unit prog" where
  "LogManager_exit E =
     try_finally
       (block [call E Log_close, call E (Zip_write structured_path None),
               add_summary_report E structured_path])
       (try_finally (call E (Os_unlink structured_path)) (call E Zip_close))"

section \<open>harness.py: backing the device up\<close>

text \<open>\<open>DeviceBackup()\<close>: the constructor makes the device manager.\<close>

definition DeviceBackup_init :: "env \<Rightarrow> device_backup prog" where
  "DeviceBackup_init E = bnd (call E DM_create) (\<lambda>_. ret (harness_DeviceBackup []))"

definition ensure_dir :: "env \<Rightarrow> string \<Rightarrow> unit prog" where
  "ensure_dir E p =
     bnd (ask E (Path_exists p) (\<lambda>tr. path_exists E tr p))
       (\<lambda>exists. if \<not> exists then call E (Makedirs p) else ret ())"

definition backup_dir :: "env \<Rightarrow> device_backup \<Rightarrow> string \<Rightarrow> unit prog" where
  "backup_dir E self remote_path =
     (let local_path = local_dir self remote_path in
      block [ensure_dir E local_path, call E (DM_getDirectory remote_path local_path)])"

definition backup_file :: "env \<Rightarrow> device_backup \<Rightarrow> string \<Rightarrow> unit prog" where
  "backup_file E self remote_path =
     (case rsplit_slash remote_path of
        None \<Rightarrow> raise ValueError
      | Some (remote_dir, filename) \<Rightarrow>
          (let local_d = local_dir self remote_dir;
               local_path = path_join local_d filename in
           block [ensure_dir E local_d, call E (DM_getFile remote_path local_path)]))"

text \<open>\<open>DeviceBackup.__enter__\<close>\<close>

definition DeviceBackup_enter :: "env \<Rightarrow> device_backup \<Rightarrow> device_backup prog" where
  "DeviceBackup_enter E self0 =
     bnd (ask E Mkdtemp (mkdtemp_path E)) (\<lambda>path.
       (let self = self0\<lparr>backup_path := path\<rparr> in
        bnd (block [for_each (backup_dir E self) (backup_dirs self),
                    for_each (backup_file E self) (backup_files self)])
          (\<lambda>_. ret self)))"

text \<open>\<open>DeviceBackup.__exit__\<close>\<close>

definition DeviceBackup_exit :: "env \<Rightarrow> device_backup \<Rightarrow> unit prog" where
  "DeviceBackup_exit E self = call E (Rmtree (backup_path self))"

section \<open>harness.py: TestRunner\<close>

text \<open>\<open>t.split(":", 1)\<close>: the suite, and the group if there is a colon.\<close>

definition split_colon :: "string \<Rightarrow> string \<times> string option" where
  "split_colon t =
     (takeWhile (\<lambda>c. c \<noteq> CHR '':'') t,
      if CHR '':'' \<in> set t then Some (tl (dropWhile (\<lambda>c. c \<noteq> CHR '':'') t)) else None)"

text \<open>The ordered dictionary \<open>d\<close>: \<open>if suite not in d: d[suite] = []\<close> and \<open>d[suite].append(g)\<close>.\<close>

definition od_touch :: "(string \<times> string list) list \<Rightarrow> string \<Rightarrow> (string \<times> string list) list" where
  "od_touch d suite = (if suite \<in> fst ` set d then d else d @ [(suite, [])])"

fun od_append :: "(string \<times> string list) list \<Rightarrow> string \<Rightarrow> string \<Rightarrow> (string \<times> string list) list" where
  "od_append [] suite g = []"
| "od_append ((k, gs) # d) suite g =
     (if k = suite then (k, gs @ [g]) # d else (k, gs) # od_append d suite g)"

fun iter_suites_loop :: "(string \<times> string list) list \<Rightarrow> string list \<Rightarrow> (string \<times> string list) list" where
  "iter_suites_loop d [] = d"
| "iter_suites_loop d (t # ts) =
     (case split_colon t of
        (suite, v1) \<Rightarrow>
          (let d1 = od_touch d suite;
               d2 = (case v1 of None \<Rightarrow> d1 | Some g \<Rightarrow> od_append d1 suite g)
           in iter_suites_loop d2 ts))"

text \<open>\<open>TestRunner.iter_suites\<close>, for the positional arguments \<open>tests\<close>.\<close>

definition iter_suites :: "string list \<Rightarrow> config \<Rightarrow> (string \<times> string list) list" where
  "iter_suites tests cfg =
     iter_suites_loop [] (if tests = [] then map fst (suites cfg) else tests)"

text \<open>
  What \<open>build_command\<close> raises, as an exception. A template outside the modelled
  fragment is taken to raise as well.
\<close>

fun exn_of_fmt :: "fmt_error \<Rightarrow> exn" where
  "exn_of_fmt (FmtKeyError k) = KeyError k"
| "exn_of_fmt FmtValueError = ValueError"
| "exn_of_fmt FmtUnmodelled = OtherError ''format''"

text \<open>
  \<open>TestRunner.run_test\<close>. When \<open>build_command\<close> or the \<open>ProcessHandler\<close> constructor
  raises, \<open>proc\<close> is unbound and the \<open>proc.kill()\<close> of the \<open>finally\<close> clause is a swallowed
  \<open>NameError\<close>: no call reaches a process. Otherwise the process is killed whether or not
  \<open>run\<close> and \<open>wait\<close> returned, and an error of \<open>kill\<close> is swallowed.
\<close>

definition run_test :: "env \<Rightarrow> config \<Rightarrow> string \<Rightarrow> string list \<Rightarrow> string \<Rightarrow> (string list \<times> string) prog" where
  "run_test E cfg suite groups temp_dir =
     (case build_command cfg suite groups temp_dir of
        Inl err \<Rightarrow> raise (exn_of_fmt err)
      | Inr (command, output_files, structured_log) \<Rightarrow>
          bnd (call E (Proc_create command)) (\<lambda>_.
            bnd (try_finally (block [call E Proc_run, call E Proc_wait])
                   (swallow (call E Proc_kill)))
              (\<lambda>_. ret (output_files, structured_log))))"

text \<open>\<open>os.path.split(path)[1]\<close>\<close>

definition basename :: "string \<Rightarrow> string" where
  "basename path = rev (takeWhile (\<lambda>c. c \<noteq> CHR ''/'') (rev path))"

text \<open>\<open>TestRunner.run_suite\<close>, inside its \<open>TemporaryDirectory\<close>.\<close>

definition run_suite :: "env \<Rightarrow> config \<Rightarrow> string \<Rightarrow> string list \<Rightarrow> unit prog" where
  "run_suite E cfg suite groups =
     bnd (mark (Enter_run_suite suite)) (\<lambda>_.
     bnd (ask E Tempdir_enter (tempdir_path E)) (\<lambda>temp_dir.
       try_finally
         (bnd (run_test E cfg suite groups temp_dir) (\<lambda>(result_files, log_path).
            block [for_each (\<lambda>path. add_file E path (suite @ ''/'' @ basename path)) result_files,
                   add_subsuite_report E log_path]))
         (call E (Tempdir_exit temp_dir))))"

section \<open>harness.py: run\_tests\<close>

text \<open>
  The body of the loop over the suites: \<open>try: run_suite except: error = True finally:
  device.restore()\<close>. The value is the flag \<open>error\<close> after the round.
\<close>

definition suite_step :: "env \<Rightarrow> config \<Rightarrow> device_backup \<Rightarrow> bool \<Rightarrow> string \<times> string list \<Rightarrow> bool prog" where
  "suite_step E cfg device error sg =
     try_finally
       (try_except (bnd (run_suite E cfg (fst sg) (snd sg)) (\<lambda>_. ret error))
          (\<lambda>e. Some (ret True)))
       (restore E device)"

fun suite_loop :: "env \<Rightarrow> config \<Rightarrow> device_backup \<Rightarrow> bool \<Rightarrow> (string \<times> string list) list \<Rightarrow> bool prog" where
  "suite_loop E cfg device error [] = ret error"
| "suite_loop E cfg device error (sg # rest) =
     bnd (suite_step E cfg device error sg) (\<lambda>error'. suite_loop E cfg device error' rest)"

text \<open>\<open>with LogManager() as log_manager: body\<close>\<close>

definition with_LogManager :: "env \<Rightarrow> 'a prog \<Rightarrow> 'a prog" where
  "with_LogManager E body =
     bnd (LogManager_enter E) (\<lambda>_. try_finally body (LogManager_exit E))"

text \<open>\<open>with DeviceBackup() as device: body\<close>\<close>

definition with_DeviceBackup :: "env \<Rightarrow> (device_backup \<Rightarrow> 'a prog) \<Rightarrow> 'a prog" where
  "with_DeviceBackup E body =
     bnd (DeviceBackup_init E) (\<lambda>self0.
       bnd (DeviceBackup_enter E self0) (\<lambda>device.
         try_finally (body device) (DeviceBackup_exit E device)))"

text \<open>
  The \<open>except\<close> clauses of \<open>run_tests\<close> and its \<open>return int(error)\<close>: \<open>SystemExit\<close> and
  \<open>KeyboardInterrupt\<close> are raised again, any other exception sets \<open>error\<close>.
\<close>

definition top_level :: "bool prog \<Rightarrow> int prog" where
  "top_level body tr =
     (case body tr of
        (Returns error, tr') \<Rightarrow> (Returns (if error then 1 else 0), tr')
      | (Raises e, tr') \<Rightarrow> (if is_Exception e then (Returns 1, tr') else (Raises e, tr')))"

text \<open>
  \<open>run_tests\<close> with the call \<open>check_preconditions(config)\<close> as a parameter \<open>gate\<close>, and
  \<open>run_tests\<close> itself.
\<close>

definition run_tests_with :: "unit prog \<Rightarrow> env \<Rightarrow> string list \<Rightarrow> config \<Rightarrow> int prog" where
  "run_tests_with gate E tests cfg =
     top_level
       (with_LogManager E
          (bnd (block [call E Setup_logging, call E Get_metadata, gate]) (\<lambda>_.
             with_DeviceBackup E
               (\<lambda>device. suite_loop E cfg device False (iter_suites tests cfg)))))"

definition run_tests :: "env \<Rightarrow> string list \<Rightarrow> config \<Rightarrow> int prog" where
  "run_tests E tests cfg = run_tests_with (check_preconditions E cfg) E tests cfg"

text \<open>
  The exit status of the process: \<open>sys.exit(main())\<close> with the value returned, the
  code of a \<open>SystemExit\<close>, and 1 for an exception that nothing catches.
\<close>

fun exit_status :: "int result \<Rightarrow> int" where
  "exit_status (Returns n) = n"
| "exit_status (Raises (SystemExit n)) = n"
| "exit_status (Raises e) = 1"

section \<open>adb\_device\_interface.py: the precondition pipeline\<close>

text \<open>The loop of \<open>check_root\<close> over the process list, up to its \<open>break\<close>.\<close>

fun scan_adbd :: "(string \<times> string \<times> string) list \<Rightarrow> bool" where
  "scan_adbd [] = False"
| "scan_adbd ((pid, name, user) # processes) =
     (if name = ''/sbin/adbd'' then user = ''root'' else scan_adbd processes)"

definition check_root :: "env \<Rightarrow> bool prog" where
  "check_root E = bnd (ask E ADB_get_process_list (process_list E)) (\<lambda>processes. ret (scan_adbd processes))"

text \<open>
  The global name \<open>logger\<close> of adb\_device\_interface.py is bound in one place only, under
  \<open>if __name__ == "__main__"\<close> at the end of the file. \<open>check_root\<close> and \<open>check_network\<close>
  log through \<open>self.logger\<close>; \<open>install_marionette\<close>, \<open>ensure_settings\<close>, \<open>check_server\<close>
  and \<open>check_preconditions\<close> log through the global name. \<open>logger_bound\<close> says whether
  the global is bound, that is whether the module runs as a script; in a module that
  has been imported every use of the name raises \<open>NameError\<close>.
\<close>

definition global_logger :: "bool \<Rightarrow> unit prog" where
  "global_logger logger_bound = (if logger_bound then ret () else raise NameError)"

text \<open>
  \<open>ADBDeviceInterface.install_marionette\<close>: \<open>AlreadyInstalledException\<close> is success, a
  \<open>CalledProcessError\<close> is raised again by the first clause that names it, \<open>WaitTimeout\<close>
  is a failed check; then b2g is restarted.
\<close>

definition adb_install_marionette :: "env \<Rightarrow> bool \<Rightarrow> bool prog" where
  "adb_install_marionette E logger_bound =
     bnd (try_except
            (bnd (global_logger logger_bound) (\<lambda>_.
             bnd (try_except (call E Marionette_install)
                    (\<lambda>e. if e = AlreadyInstalledException then Some (global_logger logger_bound)
                          else None))
                 (\<lambda>_. ret True)))
            (\<lambda>e. if e = CalledProcessError
                     then Some (bnd (global_logger logger_bound) (\<lambda>_. raise e))
                  else if e = WaitTimeout
                     then Some (bnd (global_logger logger_bound) (\<lambda>_. ret False))
                  else None))
       (\<lambda>installed. if \<not> installed then ret False
                     else bnd (call E ADB_restart) (\<lambda>_. ret True))"

text \<open>\<open>ensure_settings\<close>, in a marionette session.\<close>

definition ensure_settings :: "env \<Rightarrow> bool \<Rightarrow> bool prog" where
  "ensure_settings E logger_bound =
     bnd (global_logger logger_bound) (\<lambda>_.
     bnd (call E Marionette_create) (\<lambda>_.
     bnd (call E Session_enter) (\<lambda>_.
     bnd (try_finally
            (for_each (\<lambda>k. call E (Settings_set k))
               [''screen.automatic-brightness'', ''screen.brightness'', ''screen.timeout''])
            (call E Session_exit))
       (\<lambda>_. ret True))))"

text \<open>\<open>ADBDeviceInterface.check_network\<close>\<close>

definition adb_check_network :: "env \<Rightarrow> bool prog" where
  "adb_check_network E =
     try_except (bnd (call E ADB_wait_for_net) (\<lambda>_. ret True))
       (\<lambda>e. if e = WaitTimeout then Some (ret False) else None)"

text \<open>How one round of the loop over the ports ends.\<close>

datatype flow = Continue | Break | ReturnFalse

text \<open>
  The loop over the ports in \<open>ADBDeviceInterface.check_server\<close>: a server that does not
  start is \<open>return False\<close>; an \<open>ADBError\<close> of \<open>curl\<close> whose message contains
  "curl: not found" leaves the loop, any other \<open>ADBError\<close> is \<open>return False\<close>; the
  \<open>finally\<close> clause stops the server.
\<close>

fun adb_check_server_ports :: "env \<Rightarrow> bool \<Rightarrow> nat list \<Rightarrow> bool prog" where
  "adb_check_server_ports E logger_bound [] = ret True"
| "adb_check_server_ports E logger_bound (port # ports) =
     bnd (try_except (bnd (call E (Server_start port)) (\<lambda>_. ret True))
            (\<lambda>e. Some (bnd (global_logger logger_bound) (\<lambda>_. ret False))))
       (\<lambda>started.
          if \<not> started then ret False
          else
            bnd (try_finally
                   (try_except (bnd (call E (ADB_curl port)) (\<lambda>_. ret Continue))
                      (\<lambda>e. case e of
                              ADBError message \<Rightarrow>
                                Some (if sublist ''curl: not found'' message
                                      then bnd (global_logger logger_bound) (\<lambda>_.
                                           bnd (global_logger logger_bound) (\<lambda>_. ret Break))
                                      else bnd (global_logger logger_bound) (\<lambda>_. ret ReturnFalse))
                            | _ \<Rightarrow> None))
                   (bnd (global_logger logger_bound) (\<lambda>_. call E (Server_stop port))))
              (\<lambda>fl. case fl of
                       Continue \<Rightarrow> adb_check_server_ports E logger_bound ports
                     | Break \<Rightarrow> ret True
                     | ReturnFalse \<Rightarrow> ret False))"

definition adb_check_server :: "env \<Rightarrow> bool \<Rightarrow> bool prog" where
  "adb_check_server E logger_bound =
     bnd (global_logger logger_bound) (\<lambda>_.
     bnd (call E Get_ip) (\<lambda>_. adb_check_server_ports E logger_bound [8000, 8001]))"

text \<open>\<open>a and b\<close> on checks: \<open>b\<close> runs only if \<open>a\<close> returns \<open>True\<close>.\<close>

definition and_also :: "bool prog \<Rightarrow> bool prog \<Rightarrow> bool prog" where
  "and_also a b = bnd a (\<lambda>x. if x then b else ret False)"

text \<open>The five checks of \<open>check_preconditions\<close>, joined by \<open>and\<close>.\<close>

definition adb_checks :: "env \<Rightarrow> bool \<Rightarrow> bool prog" where
  "adb_checks E logger_bound =
     and_also (check_root E)
       (and_also (adb_install_marionette E logger_bound)
         (and_also (ensure_settings E logger_bound)
           (and_also (adb_check_network E) (adb_check_server E logger_bound))))"

text \<open>
  \<open>ADBDeviceInterface.check_preconditions\<close>; \<open>has_device\<close> is the truth value of
  \<open>self.device\<close>. The \<open>except\<close> clause and the last statement log through the global
  \<open>logger\<close>.
\<close>

definition adb_check_preconditions :: "env \<Rightarrow> bool \<Rightarrow> bool \<Rightarrow> bool prog" where
  "adb_check_preconditions E logger_bound has_device =
     (if \<not> has_device then raise (SystemExit 1)
      else
        bnd (try_except (adb_checks E logger_bound)
               (\<lambda>e. Some (bnd (global_logger logger_bound) (\<lambda>_. ret False))))
          (\<lambda>passed.
             if \<not> passed then bnd (call E ADB_reboot) (\<lambda>_. raise (SystemExit 1))
             else bnd (global_logger logger_bound) (\<lambda>_. ret True)))"

section \<open>Reading runs\<close>

text \<open>\<open>emits P m\<close>: every call that \<open>m\<close> issues satisfies \<open>P\<close>.\<close>

definition emits :: "(event \<Rightarrow> bool) \<Rightarrow> 'a prog \<Rightarrow> bool" where
  "emits P m \<longleftrightarrow> (\<forall>tr. \<exists>new. snd (m tr) = tr @ new \<and> list_all P new)"

text \<open>\<open>never_returns m\<close>: every run of \<open>m\<close> ends in an exception.\<close>

definition never_returns :: "'a prog \<Rightarrow> bool" where
  "never_returns m \<longleftrightarrow> (\<forall>tr. \<exists>e. fst (m tr) = Raises e)"

text \<open>The calls \<open>cs\<close>, issued in this order after \<open>tr\<close>, all return.\<close>

fun all_return :: "env \<Rightarrow> event list \<Rightarrow> event list \<Rightarrow> bool" where
  "all_return E tr [] = True"
| "all_return E tr (c # cs) = (raises E tr c = None \<and> all_return E (tr @ [c]) cs)"

text \<open>
  The calls of \<open>check_server\<close> in harness.py before its loop, and the calls of one round
  of the loop that finds the port usable.
\<close>

definition session_calls :: "event list" where
  "session_calls = [DM_create, DM_forward, Adb_forward_list, Marionette_create,
                    Marionette_start_session, Wait_b2g_ready, Get_ip]"

definition probe_calls :: "nat \<Rightarrow> event list" where
  "probe_calls port = [Server_start port, Marionette_navigate port, Marionette_go_back, Server_stop port]"

text \<open>The calls of \<open>check_preconditions\<close> in harness.py when every check passes at once.\<close>

definition precondition_calls :: "event list" where
  "precondition_calls =
     [DM_create,
      DM_create, Marionette_install, Time_sleep 10,
      DM_create, DM_netcfg, Time_sleep 1]
     @ session_calls @ probe_calls 8000 @ probe_calls 8001"

text \<open>
  The calls of \<open>LogManager.__exit__\<close> when none raises: the log is closed and written
  into the archive, the summary report is made and written, the log file is removed,
  the archive is closed.
\<close>

definition exit_calls :: "event list" where
  "exit_calls =
     [Log_close, Zip_write structured_path None, Report_parse_log structured_path,
      Report_summary, Zip_writestr ''report.html'', Os_unlink structured_path, Zip_close]"

text \<open>
  The calls that only the block \<open>with DeviceBackup() as device\<close> issues: the backup, the
  suites, the restores, the removal of the staging directory.
\<close>

fun in_backup_block :: "event \<Rightarrow> bool" where
  "in_backup_block Mkdtemp = True"
| "in_backup_block (Path_exists p) = True"
| "in_backup_block (Makedirs p) = True"
| "in_backup_block (Rmtree p) = True"
| "in_backup_block (DM_getDirectory r l) = True"
| "in_backup_block (DM_getFile r l) = True"
| "in_backup_block DM_remount = True"
| "in_backup_block (DM_removeFile r) = True"
| "in_backup_block (DM_pushFile l r) = True"
| "in_backup_block (DM_removeDir r) = True"
| "in_backup_block (DM_pushDir l r) = True"
| "in_backup_block (DM_reboot w) = True"
| "in_backup_block (Enter_run_suite s) = True"
| "in_backup_block Tempdir_enter = True"
| "in_backup_block (Tempdir_exit p) = True"
| "in_backup_block (Proc_create c) = True"
| "in_backup_block Proc_run = True"
| "in_backup_block Proc_wait = True"
| "in_backup_block Proc_kill = True"
| "in_backup_block c = False"

text \<open>
  The two steps of one round of the suite loop as they show in the trace: the entry into
  \<open>run_suite\<close>, and the remount with which \<open>restore\<close> begins.
\<close>

fun is_step_mark :: "event \<Rightarrow> bool" where
  "is_step_mark (Enter_run_suite s) = True"
| "is_step_mark DM_remount = True"
| "is_step_mark c = False"

definition step_marks :: "(string \<times> string list) list \<Rightarrow> event list" where
  "step_marks todo = concat (map (\<lambda>sg. [Enter_run_suite (fst sg), DM_remount]) todo)"

text \<open>The two clean-up calls: closing the archive, deleting a staging directory.\<close>

fun cleanup_call :: "event \<Rightarrow> bool" where
  "cleanup_call Zip_close = True"
| "cleanup_call (Rmtree p) = True"
| "cleanup_call c = False"

text \<open>A call that is neither a step mark nor a clean-up call.\<close>

definition plain :: "event \<Rightarrow> bool" where
  "plain c \<longleftrightarrow> \<not> is_step_mark c \<and> \<not> cleanup_call c"

subsection \<open>Example environments and configurations\<close>

text \<open>As \<open>quiet\<close>, but port 8000 is taken: no server starts on it.\<close>

definition port_busy :: env where
  "port_busy = quiet\<lparr>raises := (\<lambda>tr c. if c = Server_start 8000
                                        then Some (OtherError ''[Errno 98] Address already in use'')
                                        else None)\<rparr>"

text \<open>A configuration with the suite \<open>suiteA\<close>, and one with \<open>suiteB\<close> only.\<close>

definition cfg0 :: config where
  "cfg0 = \<lparr>suites = [(''suiteA'', run_x_opts)], entries = [(''version'', ''2.1'')]\<rparr>"

definition cfg1 :: config where
  "cfg1 = \<lparr>suites = [(''suiteB'', run_x_opts)], entries = [(''version'', ''2.1'')]\<rparr>"

text \<open>As \<open>quiet\<close>, but \<open>adbd\<close> runs as the user \<open>shell\<close>.\<close>

definition unrooted :: env where
  "unrooted = quiet\<lparr>process_list := (\<lambda>tr. [(''1'', ''/init'', ''root''), (''87'', ''/sbin/adbd'', ''shell'')])\<rparr>"

text \<open>As \<open>quiet\<close>, but the process listing of the device fails.\<close>

definition listing_fails :: env where
  "listing_fails = quiet\<lparr>raises := (\<lambda>tr c. if c = ADB_get_process_list
                                            then Some (ADBError ''device offline'')
                                            else None)\<rparr>"

section \<open>Properties of build\_command\<close>

lemma pct_format_out_temp_dir:
  "pct_format ''--out=%(temp_dir)s'' (make_subn cfg temp_dir) = Inr (''--out='' @ temp_dir)"
  by (simp add: pct_format_def make_subn_def)

text \<open>
  C9. For the suite \<open>{cmd: "run_x", run_args: ["--out=%(temp_dir)s"], common_args: []}\<close>,
  configured under any suite name in any configuration, the groups \<open>["g1", "g2"]\<close> and any
  temporary directory, \<open>build_command\<close> returns the argument vector that starts with
  \<open>run_x\<close>, continues with \<open>--log-raw=\<close> and the raw-log path
  \<open>temp_dir/suite_structuredg1_g2.log\<close> (its file name contains both group names),
  \<open>--log-mach=-\<close>, \<open>--include=g1\<close>, \<open>--include=g2\<close>, and ends with \<open>--out=\<close> followed by the
  temporary directory itself; the raw-log path is also the only output file and the
  structured log.
\<close>

theorem build_command_run_x:
  assumes "map_of (suites cfg) suite = Some run_x_opts"
  shows "build_command cfg suite [''g1'', ''g2''] temp_dir =
           Inr ([''run_x'',
                 ''--log-raw='' @ temp_dir @ ''/'' @ suite @ ''_structuredg1_g2.log'',
                 ''--log-mach=-'',
                 ''--include=g1'',
                 ''--include=g2'',
                 ''--out='' @ temp_dir],
                [temp_dir @ ''/'' @ suite @ ''_structuredg1_g2.log''],
                temp_dir @ ''/'' @ suite @ ''_structuredg1_g2.log'')"
  using assms pct_format_out_temp_dir [of cfg temp_dir]
  by (simp add: build_command_def run_x_opts_def opt_list_def log_name_of_def replace_slash_def Let_def)

theorem build_command_run_x_witness:
  "map_of (suites \<lparr>suites = [(''suiteA'', run_x_opts)], entries = [(''version'', ''2.1'')]\<rparr>) ''suiteA''
     = Some run_x_opts
   \<and> build_command \<lparr>suites = [(''suiteA'', run_x_opts)], entries = [(''version'', ''2.1'')]\<rparr>
        ''suiteA'' [''g1'', ''g2''] ''/tmp/tmpAb12'' =
       Inr ([''run_x'',
             ''--log-raw=/tmp/tmpAb12/suiteA_structuredg1_g2.log'',
             ''--log-mach=-'',
             ''--include=g1'',
             ''--include=g2'',
             ''--out=/tmp/tmpAb12''],
            [''/tmp/tmpAb12/suiteA_structuredg1_g2.log''],
            ''/tmp/tmpAb12/suiteA_structuredg1_g2.log'')"
  using build_command_run_x
    [of "\<lparr>suites = [(''suiteA'', run_x_opts)], entries = [(''version'', ''2.1'')]\<rparr>"
        "''suiteA''" "''/tmp/tmpAb12''"]
  by simp

section \<open>Traces of sequential code\<close>

lemma issued_eq: "snd (m tr) = tr @ new \<Longrightarrow> issued m tr = new"
  by (simp add: issued_def)

lemma follows_call: "follows (call E c) [c]"
  by (auto simp: follows_def call_def split: option.splits)

lemma follows_raise: "follows (raise e) script"
  by (auto simp: follows_def raise_def)

lemma follows_ret: "follows (ret ()) []"
  by (auto simp: follows_def ret_def)

lemma follows_bnd:
  assumes "follows m s1" and "follows k s2"
  shows "follows (bnd m (\<lambda>_. k)) (s1 @ s2)"
  unfolding follows_def
proof
  fix tr
  from assms(1) obtain n1 where n1: "snd (m tr) = tr @ n1" "prefix n1 s1"
    "fst (m tr) = Returns () \<longrightarrow> n1 = s1"
    unfolding follows_def by blast
  show "\<exists>new. snd (bnd m (\<lambda>_. k) tr) = tr @ new \<and> prefix new (s1 @ s2) \<and>
          (fst (bnd m (\<lambda>_. k) tr) = Returns () \<longrightarrow> new = s1 @ s2)"
  proof (cases "fst (m tr)")
    case (Raises e)
    then have "bnd m (\<lambda>_. k) tr = (Raises e, tr @ n1)"
      using n1(1) by (cases "m tr") (simp add: bnd_def)
    then show ?thesis using n1(2) by (auto intro: prefix_prefix)
  next
    case (Returns u)
    then have s: "n1 = s1" using n1(3) by simp
    from assms(2) obtain n2 where n2: "snd (k (tr @ s1)) = (tr @ s1) @ n2" "prefix n2 s2"
      "fst (k (tr @ s1)) = Returns () \<longrightarrow> n2 = s2"
      unfolding follows_def by blast
    have "bnd m (\<lambda>_. k) tr = k (tr @ s1)"
      using Returns n1(1) s by (cases "m tr") (simp add: bnd_def)
    then show ?thesis using n2 by auto
  qed
qed

lemma follows_for_each:
  assumes "\<And>x. follows (body x) (script x)"
  shows "follows (for_each body xs) (concat (map script xs))"
  by (induction xs) (auto simp: follows_ret intro: follows_bnd assms)

lemma follows_issued:
  assumes "follows m script"
  shows "snd (m tr) = tr @ issued m tr" and "prefix (issued m tr) script"
    and "fst (m tr) = Returns () \<Longrightarrow> issued m tr = script"
proof -
  from assms obtain new where n: "snd (m tr) = tr @ new" "prefix new script"
    "fst (m tr) = Returns () \<longrightarrow> new = script"
    unfolding follows_def by blast
  have i: "issued m tr = new" using n(1) by (rule issued_eq)
  show "snd (m tr) = tr @ issued m tr" using n(1) i by simp
  show "prefix (issued m tr) script" using n(2) i by simp
  show "fst (m tr) = Returns () \<Longrightarrow> issued m tr = script" using n(3) i by simp
qed

section \<open>Properties of DeviceBackup.restore\<close>

lemma follows_restore_file:
  "follows (restore_file E self p) [DM_removeFile p, DM_pushFile (local_file self p) p]"
proof (cases "rsplit_slash p")
  case None
  then show ?thesis by (simp add: restore_file_def follows_raise)
next
  case (Some a)
  obtain d f where a: "a = (d, f)" by (cases a)
  have "follows (bnd (call E (DM_removeFile p)) (\<lambda>_. bnd (call E (DM_pushFile (local_file self p) p)) (\<lambda>_. ret ())))
          ([DM_removeFile p] @ ([DM_pushFile (local_file self p) p] @ []))"
    by (intro follows_bnd follows_call follows_ret)
  then show ?thesis using Some a by (simp add: restore_file_def local_file_def)
qed

lemma follows_restore_dir:
  "follows (restore_dir E self p) [DM_removeDir p, DM_pushDir (local_dir self p) p]"
proof -
  have "follows (bnd (call E (DM_removeDir p)) (\<lambda>_. bnd (call E (DM_pushDir (local_dir self p) p)) (\<lambda>_. ret ())))
          ([DM_removeDir p] @ ([DM_pushDir (local_dir self p) p] @ []))"
    by (intro follows_bnd follows_call follows_ret)
  then show ?thesis by (simp add: restore_dir_def)
qed

lemma follows_restore:
  "follows (restore E self) (spec_restore self @ [DM_reboot True])"
proof -
  have "follows (bnd (call E DM_remount) (\<lambda>_.
          bnd (for_each (restore_file E self) (backup_files self)) (\<lambda>_.
          bnd (for_each (restore_dir E self) (backup_dirs self)) (\<lambda>_.
          bnd (call E (DM_reboot True)) (\<lambda>_. ret ())))))
        ([DM_remount] @ (spec_file_steps self @ (spec_dir_steps self @ ([DM_reboot True] @ []))))"
    unfolding spec_file_steps_def spec_dir_steps_def
    by (intro follows_bnd follows_call follows_ret follows_for_each follows_restore_file follows_restore_dir)
  then show ?thesis by (simp add: restore_def spec_restore_def)
qed

lemma follows_adb_restore_file:
  "follows (adb_restore_file E self p) [ADB_rm p False, ADB_push (local_file self p) p]"
proof (cases "rsplit_slash p")
  case None
  then show ?thesis by (simp add: adb_restore_file_def follows_raise)
next
  case (Some a)
  obtain d f where a: "a = (d, f)" by (cases a)
  have "follows (bnd (call E (ADB_rm p False)) (\<lambda>_. bnd (call E (ADB_push (local_file self p) p)) (\<lambda>_. ret ())))
          ([ADB_rm p False] @ ([ADB_push (local_file self p) p] @ []))"
    by (intro follows_bnd follows_call follows_ret)
  then show ?thesis using Some a by (simp add: adb_restore_file_def local_file_def)
qed

lemma follows_adb_restore_dir:
  "follows (adb_restore_dir E self p) [ADB_rm p True, ADB_push (local_dir self p) p]"
proof -
  have "follows (bnd (call E (ADB_rm p True)) (\<lambda>_. bnd (call E (ADB_push (local_dir self p) p)) (\<lambda>_. ret ())))
          ([ADB_rm p True] @ ([ADB_push (local_dir self p) p] @ []))"
    by (intro follows_bnd follows_call follows_ret)
  then show ?thesis by (simp add: adb_restore_dir_def)
qed

lemma follows_adb_restore:
  "follows (adb_restore E self) (adb_spec_restore self)"
proof -
  have "follows (bnd (call E ADB_remount) (\<lambda>_.
          bnd (for_each (adb_restore_file E self) (backup_files self)) (\<lambda>_.
          bnd (for_each (adb_restore_dir E self) (backup_dirs self)) (\<lambda>_. ret ()))))
        ([ADB_remount] @ (adb_spec_file_steps self @ (adb_spec_dir_steps self @ [])))"
    unfolding adb_spec_file_steps_def adb_spec_dir_steps_def
    by (intro follows_bnd follows_call follows_ret follows_for_each follows_adb_restore_file follows_adb_restore_dir)
  then show ?thesis by (simp add: adb_restore_def adb_spec_restore_def)
qed

lemma files_first_no_dir: "\<forall>c \<in> set cs. \<not> is_dir_step c \<Longrightarrow> files_first cs"
  unfolding files_first_def by (induction cs) auto

lemma files_first_no_file: "\<forall>c \<in> set cs. \<not> is_file_step c \<Longrightarrow> files_first cs"
  unfolding files_first_def by (induction cs) auto

lemma files_first_append:
  "\<forall>c \<in> set xs. \<not> is_dir_step c \<Longrightarrow> \<forall>c \<in> set ys. \<not> is_file_step c \<Longrightarrow> files_first (xs @ ys)"
  using files_first_no_dir [of xs] files_first_no_file [of ys]
  by (auto simp: files_first_def sorted_wrt_append)

lemma files_first_prefix: "prefix xs ys \<Longrightarrow> files_first ys \<Longrightarrow> files_first xs"
  by (auto simp: files_first_def prefix_def sorted_wrt_append)

lemma files_first_spec_restore: "files_first (spec_restore self @ [DM_reboot True])"
proof -
  have "files_first (([DM_remount] @ spec_file_steps self) @ (spec_dir_steps self @ [DM_reboot True]))"
    by (rule files_first_append) (auto simp: spec_file_steps_def spec_dir_steps_def)
  then show ?thesis by (simp add: spec_restore_def)
qed

lemma files_first_adb_spec_restore: "files_first (adb_spec_restore self)"
proof -
  have "files_first (([ADB_remount] @ adb_spec_file_steps self) @ adb_spec_dir_steps self)"
    by (rule files_first_append) (auto simp: adb_spec_file_steps_def adb_spec_dir_steps_def)
  then show ?thesis by (simp add: adb_spec_restore_def)
qed

lemma restore_quiet:
  "restore quiet (harness_DeviceBackup ''/tmp/tmpQ'') [] =
     (Returns (),
      [DM_remount,
       DM_removeFile ''/system/etc/hosts'',
       DM_pushFile ''/tmp/tmpQ/system/etc/hosts'' ''/system/etc/hosts'',
       DM_removeDir ''/data/local'',
       DM_pushDir ''/tmp/tmpQ/data/local'' ''/data/local'',
       DM_removeDir ''/data/b2g/mozilla'',
       DM_pushDir ''/tmp/tmpQ/data/b2g/mozilla'' ''/data/b2g/mozilla'',
       DM_reboot True])"
  by (simp add: restore_def restore_file_def restore_dir_def harness_DeviceBackup_def quiet_def
      call_def bnd_def ret_def local_dir_def path_join_def lstrip_slash_def rsplit_slash_def)

lemma adb_restore_quiet:
  "adb_restore quiet (adb_DeviceBackup None None ''/tmp/tmpQ'') [] =
     (Returns (),
      [ADB_remount,
       ADB_rm ''/system/etc/hosts'' False,
       ADB_push ''/tmp/tmpQ/system/etc/hosts'' ''/system/etc/hosts'',
       ADB_rm ''/data/local'' True,
       ADB_push ''/tmp/tmpQ/data/local'' ''/data/local'',
       ADB_rm ''/data/b2g/mozilla'' True,
       ADB_push ''/tmp/tmpQ/data/b2g/mozilla'' ''/data/b2g/mozilla''])"
  by (simp add: adb_restore_def adb_restore_file_def adb_restore_dir_def adb_DeviceBackup_def quiet_def
      call_def bnd_def ret_def local_dir_def path_join_def lstrip_slash_def rsplit_slash_def)

text \<open>
  C8. Both \<open>restore\<close> methods follow the sequence of the specification: remount; then, for
  each backed-up file in order, remove the live copy and push the staged copy; then, for
  each backed-up directory in order, remove the live copy recursively and push the
  staged tree (harness.py then reboots). Whatever the device answers, the calls issued
  by one call of \<open>restore\<close> are an initial segment of that sequence (a call that raises
  ends it), no step on a file comes after a step on a directory, and a call of \<open>restore\<close>
  that returns has issued the whole sequence.
\<close>

theorem restore_files_before_dirs:
  "(snd (restore E self tr) = tr @ issued (restore E self) tr
      \<and> prefix (issued (restore E self) tr) (spec_restore self @ [DM_reboot True])
      \<and> files_first (issued (restore E self) tr)
      \<and> (fst (restore E self tr) = Returns () \<longrightarrow>
           issued (restore E self) tr = spec_restore self @ [DM_reboot True]))
   \<and> (snd (adb_restore E self' tr) = tr @ issued (adb_restore E self') tr
      \<and> prefix (issued (adb_restore E self') tr) (adb_spec_restore self')
      \<and> files_first (issued (adb_restore E self') tr)
      \<and> (fst (adb_restore E self' tr) = Returns () \<longrightarrow>
           issued (adb_restore E self') tr = adb_spec_restore self'))"
  using follows_issued [OF follows_restore, of E self tr]
    follows_issued [OF follows_adb_restore, of E self' tr]
    files_first_prefix [OF _ files_first_spec_restore]
    files_first_prefix [OF _ files_first_adb_spec_restore]
  by blast

theorem restore_files_before_dirs_witness:
  "fst (restore quiet (harness_DeviceBackup ''/tmp/tmpQ'') []) = Returns ()
   \<and> issued (restore quiet (harness_DeviceBackup ''/tmp/tmpQ'')) [] =
       [DM_remount,
        DM_removeFile ''/system/etc/hosts'',
        DM_pushFile ''/tmp/tmpQ/system/etc/hosts'' ''/system/etc/hosts'',
        DM_removeDir ''/data/local'',
        DM_pushDir ''/tmp/tmpQ/data/local'' ''/data/local'',
        DM_removeDir ''/data/b2g/mozilla'',
        DM_pushDir ''/tmp/tmpQ/data/b2g/mozilla'' ''/data/b2g/mozilla'',
        DM_reboot True]
   \<and> fst (adb_restore quiet (adb_DeviceBackup None None ''/tmp/tmpQ'') []) = Returns ()
   \<and> issued (adb_restore quiet (adb_DeviceBackup None None ''/tmp/tmpQ'')) [] =
       [ADB_remount,
        ADB_rm ''/system/etc/hosts'' False,
        ADB_push ''/tmp/tmpQ/system/etc/hosts'' ''/system/etc/hosts'',
        ADB_rm ''/data/local'' True,
        ADB_push ''/tmp/tmpQ/data/local'' ''/data/local'',
        ADB_rm ''/data/b2g/mozilla'' True,
        ADB_push ''/tmp/tmpQ/data/b2g/mozilla'' ''/data/b2g/mozilla'']"
proof -
  have h: "fst (restore quiet (harness_DeviceBackup ''/tmp/tmpQ'') []) = Returns ()"
    by (simp add: restore_quiet)
  have a: "fst (adb_restore quiet (adb_DeviceBackup None None ''/tmp/tmpQ'') []) = Returns ()"
    by (simp add: adb_restore_quiet)
  have s1: "spec_restore (harness_DeviceBackup ''/tmp/tmpQ'') @ [DM_reboot True] =
       [DM_remount,
        DM_removeFile ''/system/etc/hosts'',
        DM_pushFile ''/tmp/tmpQ/system/etc/hosts'' ''/system/etc/hosts'',
        DM_removeDir ''/data/local'',
        DM_pushDir ''/tmp/tmpQ/data/local'' ''/data/local'',
        DM_removeDir ''/data/b2g/mozilla'',
        DM_pushDir ''/tmp/tmpQ/data/b2g/mozilla'' ''/data/b2g/mozilla'',
        DM_reboot True]"
    by (simp add: spec_restore_def spec_file_steps_def spec_dir_steps_def harness_DeviceBackup_def
        local_file_def local_dir_def path_join_def lstrip_slash_def rsplit_slash_def)
  have s2: "adb_spec_restore (adb_DeviceBackup None None ''/tmp/tmpQ'') =
       [ADB_remount,
        ADB_rm ''/system/etc/hosts'' False,
        ADB_push ''/tmp/tmpQ/system/etc/hosts'' ''/system/etc/hosts'',
        ADB_rm ''/data/local'' True,
        ADB_push ''/tmp/tmpQ/data/local'' ''/data/local'',
        ADB_rm ''/data/b2g/mozilla'' True,
        ADB_push ''/tmp/tmpQ/data/b2g/mozilla'' ''/data/b2g/mozilla'']"
    by (simp add: adb_spec_restore_def adb_spec_file_steps_def adb_spec_dir_steps_def
        adb_DeviceBackup_def local_file_def local_dir_def path_join_def lstrip_slash_def
        rsplit_slash_def)
  show ?thesis
    using restore_files_before_dirs
      [of quiet "harness_DeviceBackup ''/tmp/tmpQ''" "[]" "adb_DeviceBackup None None ''/tmp/tmpQ''"]
      h a s1 s2
    by simp
qed

lemma no_reboot_in_spec_restore: "DM_reboot w \<notin> set (spec_restore self)"
  by (auto simp: spec_restore_def spec_file_steps_def spec_dir_steps_def)

lemma no_reboot_in_adb_spec_restore:
  "DM_reboot w \<notin> set (adb_spec_restore self)" "ADB_reboot \<notin> set (adb_spec_restore self)"
  by (auto simp: adb_spec_restore_def adb_spec_file_steps_def adb_spec_dir_steps_def)

lemma reboot_only_at_end:
  assumes "prefix new (spec_restore self @ [DM_reboot True])" and "DM_reboot w \<in> set new"
  shows "w = True \<and> new = spec_restore self @ [DM_reboot True]"
proof -
  from assms(1) have "new = spec_restore self @ [DM_reboot True] \<or> prefix new (spec_restore self)"
    by (simp add: prefix_snoc)
  moreover have "\<not> prefix new (spec_restore self)"
    using assms(2) no_reboot_in_spec_restore [of w self] set_mono_prefix by fastforce
  ultimately have n: "new = spec_restore self @ [DM_reboot True]" by blast
  with assms(2) no_reboot_in_spec_restore [of w self] show ?thesis by auto
qed

text \<open>
  C10. The \<open>restore\<close> of harness.py ends with \<open>self.device.reboot(wait=True)\<close>: a call of
  \<open>restore\<close> that returns has issued the remount, the file steps and the directory steps
  and then, last, the reboot that waits for the device; the reboot is issued only after
  all of those steps. The \<open>restore\<close> of adb\_device\_interface.py never issues a reboot.
\<close>

theorem harness_restore_reboots:
  "(fst (restore E self tr) = Returns () \<longrightarrow>
      issued (restore E self) tr = spec_restore self @ [DM_reboot True])
   \<and> (\<forall>w. DM_reboot w \<in> set (issued (restore E self) tr) \<longrightarrow>
         w = True \<and> issued (restore E self) tr = spec_restore self @ [DM_reboot True])
   \<and> ADB_reboot \<notin> set (issued (adb_restore E self') tr)
   \<and> (\<forall>w. DM_reboot w \<notin> set (issued (adb_restore E self') tr))"
proof -
  have 1: "fst (restore E self tr) = Returns () \<longrightarrow>
      issued (restore E self) tr = spec_restore self @ [DM_reboot True]"
    using follows_issued(3) [OF follows_restore] by blast
  have 2: "\<forall>w. DM_reboot w \<in> set (issued (restore E self) tr) \<longrightarrow>
         w = True \<and> issued (restore E self) tr = spec_restore self @ [DM_reboot True]"
    using reboot_only_at_end [OF follows_issued(2) [OF follows_restore]] by blast
  have p: "set (issued (adb_restore E self') tr) \<subseteq> set (adb_spec_restore self')"
    using follows_issued(2) [OF follows_adb_restore] by (rule set_mono_prefix)
  have 3: "ADB_reboot \<notin> set (issued (adb_restore E self') tr)"
    using p no_reboot_in_adb_spec_restore(2) by blast
  have 4: "\<forall>w. DM_reboot w \<notin> set (issued (adb_restore E self') tr)"
    using p no_reboot_in_adb_spec_restore(1) by blast
  from 1 2 3 4 show ?thesis by blast
qed

theorem harness_restore_reboots_witness:
  "fst (restore quiet (harness_DeviceBackup ''/tmp/tmpQ'') []) = Returns ()
   \<and> DM_reboot True \<in> set (issued (restore quiet (harness_DeviceBackup ''/tmp/tmpQ'')) [])
   \<and> issued (restore quiet (harness_DeviceBackup ''/tmp/tmpQ'')) [] =
       spec_restore (harness_DeviceBackup ''/tmp/tmpQ'') @ [DM_reboot True]
   \<and> ADB_reboot \<notin> set (issued (adb_restore quiet (adb_DeviceBackup None None ''/tmp/tmpQ'')) [])"
proof -
  have h: "fst (restore quiet (harness_DeviceBackup ''/tmp/tmpQ'') []) = Returns ()"
    by (simp add: restore_quiet)
  have r: "DM_reboot True \<in> set (issued (restore quiet (harness_DeviceBackup ''/tmp/tmpQ'')) [])"
    by (simp add: issued_def restore_quiet)
  show ?thesis
    using harness_restore_reboots
      [of quiet "harness_DeviceBackup ''/tmp/tmpQ''" "[]" "adb_DeviceBackup None None ''/tmp/tmpQ''"]
      h r
    by simp
qed

section \<open>Properties of poll\_wait\<close>

lemma poll_loop_falsy_step:
  assumes "elapsed E k < T"
    and "falsy_at E k"
    and "k = 0 \<and> cb \<longrightarrow> after_first_raises E = None"
  shows "poll_loop E I T cb (now E 0) (poll_time E k) (0 < k) (world_at E I cb k)
       = poll_loop E I T cb (now E 0) (poll_time E (Suc k)) True (world_at E I cb (Suc k))"
proof -
  from assms(2) obtain v where v: "func E k = Returns v" "\<not> truthy v"
    by (auto simp: falsy_at_def split: result.splits)
  have t: "fsub E (poll_time E k) (now E 0) < T"
    using assms(1) by (simp add: elapsed_def)
  show ?thesis
  proof (cases "k = 0 \<and> cb")
    case True
    then have c: "after_first_raises E = None" using assms(3) by simp
    show ?thesis
      apply (subst poll_loop.simps)
      using True t v c
      by (simp add: call_func_def call_after_first_def time_time_def time_sleep_def world_at_def
          sleep_of_def poll_time_def Let_def eval_nat_numeral)
  next
    case False
    show ?thesis
      apply (subst poll_loop.simps)
      using False t v
      by (auto simp: call_func_def call_after_first_def time_time_def time_sleep_def world_at_def
          sleep_of_def poll_time_def Let_def)
  qed
qed

lemma poll_loop_falsy_steps:
  assumes "\<forall>j<k. elapsed E j < T \<and> falsy_at E j"
    and "0 < k \<and> cb \<longrightarrow> after_first_raises E = None"
  shows "poll_wait E I T cb
       = poll_loop E I T cb (now E 0) (poll_time E k) (0 < k) (world_at E I cb k)"
  using assms
proof (induction k)
  case 0
  show ?case by (simp add: poll_wait_def world_at_def time_time_def poll_time_def Let_def)
next
  case (Suc k)
  have "poll_wait E I T cb
       = poll_loop E I T cb (now E 0) (poll_time E k) (0 < k) (world_at E I cb k)"
    using Suc by simp
  also have "\<dots> = poll_loop E I T cb (now E 0) (poll_time E (Suc k)) True (world_at E I cb (Suc k))"
    using Suc.prems by (intro poll_loop_falsy_step) auto
  finally show ?case by simp
qed

lemma poll_loop_truthy:
  assumes "elapsed E k < T"
    and "func E k = Returns v" and "truthy v"
  shows "poll_loop E I T cb (now E 0) (poll_time E k) r (world_at E I cb k)
       = Some (Returns v, (world_at E I cb k)\<lparr>polls := k + 1\<rparr>)"
  apply (subst poll_loop.simps)
  using assms by (simp add: call_func_def world_at_def elapsed_def)

lemma poll_loop_timeout:
  assumes "\<not> elapsed E k < T"
  shows "poll_loop E I T cb (now E 0) (poll_time E k) r (world_at E I cb k)
       = Some (Raises WaitTimeout, world_at E I cb k)"
  apply (subst poll_loop.simps)
  using assms by (simp add: elapsed_def)

lemma poll_loop_raises:
  assumes "elapsed E k < T"
    and "func E k = Raises e"
  shows "poll_loop E I T cb (now E 0) (poll_time E k) r (world_at E I cb k)
       = Some (Raises e, (world_at E I cb k)\<lparr>polls := k + 1\<rparr>)"
  apply (subst poll_loop.simps)
  using assms by (simp add: call_func_def world_at_def elapsed_def)

lemma poll_loop_callback_raises:
  assumes "elapsed E 0 < T"
    and "falsy_at E 0"
    and "after_first_raises E = Some e"
  shows "poll_wait E I T True
       = Some (Raises e, \<lparr>reads = 2, polls = 1, callbacks = 1, sleeps = []\<rparr>)"
proof -
  from assms(2) obtain v where v: "func E 0 = Returns v" "\<not> truthy v"
    by (auto simp: falsy_at_def split: result.splits)
  have t: "fsub E (now E 1) (now E 0) < T"
    using assms(1) by (simp add: elapsed_def poll_time_def)
  have "poll_wait E I T True
       = poll_loop E I T True (now E 0) (poll_time E 0) (0 < (0::nat)) (world_at E I True 0)"
    by (intro poll_loop_falsy_steps) auto
  also have "\<dots> = Some (Raises e, \<lparr>reads = 2, polls = 1, callbacks = 1, sleeps = []\<rparr>)"
    apply (subst poll_loop.simps)
    using t v assms(3)
    by (simp add: call_func_def call_after_first_def world_at_def poll_time_def)
  finally show ?thesis .
qed

text \<open>The run of \<open>poll_wait\<close> that ends at the loop test number \<open>n\<close>.\<close>

lemma poll_wait_times_out_at:
  assumes "\<forall>j<n. elapsed E j < T \<and> falsy_at E j"
    and "\<not> elapsed E n < T"
    and "0 < n \<and> cb \<longrightarrow> after_first_raises E = None"
  shows "poll_wait E I T cb = Some (Raises WaitTimeout, world_at E I cb n)"
proof -
  have "poll_wait E I T cb
       = poll_loop E I T cb (now E 0) (poll_time E n) (0 < n) (world_at E I cb n)"
    using assms(1,3) by (intro poll_loop_falsy_steps) auto
  also have "\<dots> = Some (Raises WaitTimeout, world_at E I cb n)"
    using assms(2) by (rule poll_loop_timeout)
  finally show ?thesis .
qed

text \<open>The run of \<open>poll_wait\<close> whose evaluation number \<open>k\<close> raises.\<close>

lemma poll_wait_raises_at:
  assumes "\<forall>j<k. elapsed E j < T \<and> falsy_at E j"
    and "elapsed E k < T"
    and "func E k = Raises e"
    and "0 < k \<and> cb \<longrightarrow> after_first_raises E = None"
  shows "poll_wait E I T cb = Some (Raises e, (world_at E I cb k)\<lparr>polls := k + 1\<rparr>)"
proof -
  have "poll_wait E I T cb
       = poll_loop E I T cb (now E 0) (poll_time E k) (0 < k) (world_at E I cb k)"
    using assms(1,4) by (intro poll_loop_falsy_steps) auto
  also have "\<dots> = Some (Raises e, (world_at E I cb k)\<lparr>polls := k + 1\<rparr>)"
    using assms(2,3) by (rule poll_loop_raises)
  finally show ?thesis .
qed

text \<open>
  The run of \<open>poll_wait\<close> whose evaluation number \<open>k\<close> is the first to return a truthy
  value.
\<close>

lemma poll_wait_returns_at:
  assumes "\<forall>j<k. falsy_at E j"
    and "func E k = Returns v" and "truthy v"
    and "\<forall>j\<le>k. elapsed E j < T"
    and "0 < k \<and> cb \<longrightarrow> after_first_raises E = None"
  shows "poll_wait E I T cb = Some (Returns v, (world_at E I cb k)\<lparr>polls := k + 1\<rparr>)"
proof -
  have "poll_wait E I T cb
       = poll_loop E I T cb (now E 0) (poll_time E k) (0 < k) (world_at E I cb k)"
    using assms(1,4,5) by (intro poll_loop_falsy_steps) auto
  also have "\<dots> = Some (Returns v, (world_at E I cb k)\<lparr>polls := k + 1\<rparr>)"
    using assms(4,2,3) by (intro poll_loop_truthy) auto
  finally show ?thesis .
qed

text \<open>Polls that are at least one polling interval apart.\<close>

lemma poll_time_lower:
  assumes "\<forall>j. poll_time E j + I \<le> poll_time E (Suc j)"
  shows "poll_time E 0 + of_nat k * I \<le> poll_time E k"
proof (induction k)
  case 0
  show ?case by simp
next
  case (Suc k)
  have "poll_time E 0 + of_nat (Suc k) * I = (poll_time E 0 + of_nat k * I) + I"
    by (simp add: algebra_simps)
  also have "\<dots> \<le> poll_time E k + I" using Suc by simp
  also have "\<dots> \<le> poll_time E (Suc k)" using assms by simp
  finally show ?case .
qed

lemma ready_env_elapsed: "elapsed ready_env k = real k"
  by (simp add: elapsed_def poll_time_def ready_env_def steady_clock_def)

lemma ready_env_run:
  "poll_wait ready_env 1 30 True =
     Some (Returns (PyBool True), \<lparr>reads = 2, polls = 1, callbacks = 0, sleeps = []\<rparr>)"
proof -
  have b: "func ready_env 0 = Returns (PyBool True)" by (simp add: ready_env_def)
  have c: "\<forall>j\<le>0. elapsed ready_env j < 30" by (simp add: ready_env_elapsed)
  have "poll_wait ready_env 1 30 True
      = Some (Returns (PyBool True), (world_at ready_env 1 True 0)\<lparr>polls := 0 + 1\<rparr>)"
    using b c by (intro poll_wait_returns_at) auto
  then show ?thesis by (simp add: world_at_def)
qed

lemma ready_env_timeout:
  "poll_wait ready_env 1 0 True =
     Some (Raises WaitTimeout, \<lparr>reads = 2, polls = 0, callbacks = 0, sleeps = []\<rparr>)"
proof -
  have b: "\<not> elapsed ready_env 0 < 0" by (simp add: ready_env_elapsed)
  have "poll_wait ready_env 1 0 True = Some (Raises WaitTimeout, world_at ready_env 1 True 0)"
    using b by (intro poll_wait_times_out_at) auto
  then show ?thesis by (simp add: world_at_def)
qed

lemma broken_env_run:
  "poll_wait broken_env 1 30 True =
     Some (Raises (OtherError ''device offline''),
           \<lparr>reads = 2, polls = 1, callbacks = 0, sleeps = []\<rparr>)"
proof -
  have b: "func broken_env 0 = Raises (OtherError ''device offline'')"
    by (simp add: broken_env_def)
  have c: "elapsed broken_env 0 < 30"
    by (simp add: elapsed_def poll_time_def broken_env_def steady_clock_def)
  have "poll_wait broken_env 1 30 True
      = Some (Raises (OtherError ''device offline''), (world_at broken_env 1 True 0)\<lparr>polls := 0 + 1\<rparr>)"
    using b c by (intro poll_wait_raises_at) auto
  then show ?thesis by (simp add: world_at_def)
qed

lemma broken_callback_env_run:
  "poll_wait broken_callback_env 1 30 True =
     Some (Raises (OtherError ''start failed''),
           \<lparr>reads = 2, polls = 1, callbacks = 1, sleeps = []\<rparr>)"
proof -
  have a: "falsy_at broken_callback_env 0" by (simp add: falsy_at_def broken_callback_env_def)
  have b: "after_first_raises broken_callback_env = Some (OtherError ''start failed'')"
    by (simp add: broken_callback_env_def)
  have c: "elapsed broken_callback_env 0 < 30"
    by (simp add: elapsed_def poll_time_def broken_callback_env_def steady_clock_def)
  show ?thesis using c a b by (rule poll_loop_callback_raises)
qed

lemma third_env_elapsed: "elapsed third_env k = real k"
  by (simp add: elapsed_def poll_time_def third_env_def steady_clock_def)

lemma third_env_poll_time: "poll_time third_env k = real k"
  by (simp add: poll_time_def third_env_def steady_clock_def)

lemma third_env_sleep: "sleep_of third_env 1 k = 1"
  by (simp add: sleep_of_def poll_time_def third_env_def steady_clock_def)

lemma third_env_run:
  "poll_wait third_env 1 30 True =
     Some (Returns (PyStr ''10.0.0.2''),
           \<lparr>reads = 6, polls = 3, callbacks = 1, sleeps = [1, 1]\<rparr>)"
proof -
  have a: "\<forall>j<2. falsy_at third_env j" by (simp add: falsy_at_def third_env_def)
  have b: "func third_env 2 = Returns (PyStr ''10.0.0.2'')" by (simp add: third_env_def)
  have c: "\<forall>j\<le>2. elapsed third_env j < 30" by (simp add: third_env_elapsed)
  have d: "after_first_raises third_env = None" by (simp add: third_env_def)
  have u: "[0..<2] = [0, Suc 0]" by (simp add: upt_rec)
  have "poll_wait third_env 1 30 True
      = Some (Returns (PyStr ''10.0.0.2''), (world_at third_env 1 True 2)\<lparr>polls := 2 + 1\<rparr>)"
    using a b c d by (intro poll_wait_returns_at) auto
  then show ?thesis by (simp add: world_at_def third_env_sleep u)
qed

lemma idle_env_elapsed: "elapsed idle_env k = real k"
  by (simp add: elapsed_def poll_time_def idle_env_def steady_clock_def)

lemma idle_env_sleep: "sleep_of idle_env 1 k = 1"
  by (simp add: sleep_of_def poll_time_def idle_env_def steady_clock_def)

lemma idle_env_run:
  "poll_wait idle_env 1 3 False =
     Some (Raises WaitTimeout, \<lparr>reads = 8, polls = 3, callbacks = 0, sleeps = [1, 1, 1]\<rparr>)"
proof -
  have a: "\<forall>j<3. elapsed idle_env j < 3 \<and> falsy_at idle_env j"
    by (simp add: idle_env_elapsed) (simp add: falsy_at_def idle_env_def)
  have b: "\<not> elapsed idle_env 3 < 3" by (simp add: idle_env_elapsed)
  have u: "[0..<3] = [0, Suc 0, Suc (Suc 0)]" by (simp add: upt_rec)
  have "poll_wait idle_env 1 3 False = Some (Raises WaitTimeout, world_at idle_env 1 False 3)"
    using a b by (intro poll_wait_times_out_at) auto
  then show ?thesis by (simp add: world_at_def idle_env_sleep u)
qed

lemma slow_env_elapsed: "elapsed slow_env k = (if k = 0 then 0 else 100)"
  by (simp add: elapsed_def poll_time_def slow_env_def)

lemma slow_env_run:
  "poll_wait slow_env 1 30 False =
     Some (Raises WaitTimeout, \<lparr>reads = 4, polls = 1, callbacks = 0, sleeps = [0]\<rparr>)"
proof -
  have a: "\<forall>j<1. elapsed slow_env j < 30 \<and> falsy_at slow_env j"
    by (simp add: slow_env_elapsed) (simp add: falsy_at_def slow_env_def)
  have b: "\<not> elapsed slow_env 1 < 30" by (simp add: slow_env_elapsed)
  have s: "sleep_of slow_env 1 0 = 0"
    by (simp add: sleep_of_def poll_time_def slow_env_def)
  have "poll_wait slow_env 1 30 False = Some (Raises WaitTimeout, world_at slow_env 1 False 1)"
    using a b by (intro poll_wait_times_out_at) auto
  then show ?thesis by (simp add: world_at_def s)
qed

lemma failing_env_run:
  "poll_wait failing_env 1 30 False =
     Some (Raises (OtherError ''device offline''),
           \<lparr>reads = 2, polls = 1, callbacks = 0, sleeps = []\<rparr>)"
proof -
  have b: "func failing_env 0 = Raises (OtherError ''device offline'')"
    by (simp add: failing_env_def)
  have c: "elapsed failing_env 0 < 30"
    by (simp add: elapsed_def poll_time_def failing_env_def steady_clock_def)
  have "poll_wait failing_env 1 30 False
      = Some (Raises (OtherError ''device offline''), (world_at failing_env 1 False 0)\<lparr>polls := 0 + 1\<rparr>)"
    using b c by (intro poll_wait_raises_at) auto
  then show ?thesis by (simp add: world_at_def)
qed

lemma rounded_poll_time:
  "poll_time rounded_env n = (if n = 8 then 7999999999999999 / 10 ^ 16 else real n / 10)"
  by (simp add: poll_time_def rounded_env_def)

lemma rounded_env_within:
  "\<not> (\<exists>n. poll_time rounded_env 0 + of_nat 8 * (1 / 10) \<le> poll_time rounded_env n
          \<and> \<not> (\<exists>v. func rounded_env n = Returns v \<and> truthy v))"
proof -
  have "9 \<le> n" if "poll_time rounded_env 0 + of_nat 8 * (1 / 10) \<le> poll_time rounded_env n" for n
  proof (cases "n = 8")
    case True
    with that show ?thesis by (simp add: rounded_poll_time)
  next
    case False
    with that have "8 \<le> real n" by (simp add: rounded_poll_time)
    then have "8 \<le> n" by linarith
    with False show ?thesis by simp
  qed
  moreover have "\<exists>v. func rounded_env n = Returns v \<and> truthy v" if "9 \<le> n" for n
    using that by (simp add: rounded_env_def)
  ultimately show ?thesis by blast
qed

lemma rounded_env_elapsed:
  assumes "k \<le> 9"
  shows "elapsed rounded_env k < 30"
proof -
  have "poll_time rounded_env k \<le> 1"
    using assms by (simp add: rounded_poll_time)
  moreover have "now rounded_env 0 = 0" by (simp add: rounded_env_def)
  moreover have "fsub rounded_env = (-)" by (simp add: rounded_env_def)
  ultimately show ?thesis by (simp add: elapsed_def)
qed

lemma rounded_env_run:
  "\<exists>w. poll_wait rounded_env (1 / 10) 30 False = Some (Returns (PyBool True), w) \<and> polls w = 10"
proof -
  have a: "\<forall>j<9. falsy_at rounded_env j" by (simp add: falsy_at_def rounded_env_def)
  have b: "func rounded_env 9 = Returns (PyBool True)" by (simp add: rounded_env_def)
  have c: "\<forall>j\<le>9. elapsed rounded_env j < 30" using rounded_env_elapsed by simp
  have "poll_wait rounded_env (1 / 10) 30 False
      = Some (Returns (PyBool True), (world_at rounded_env (1 / 10) False 9)\<lparr>polls := 9 + 1\<rparr>)"
    using a b c by (intro poll_wait_returns_at) auto
  then show ?thesis by simp
qed

text \<open>
  The loop need not end: under a clock that stands still, a predicate that never holds
  is polled for ever.
\<close>

lemma still_loop_never_returns:
  assumes "poll_loop E I T cb s c rf w = Some y"
  shows "\<not> (now E = (\<lambda>i. 0) \<and> func E = (\<lambda>n. Returns (PyBool False))
            \<and> after_first_raises E = None \<and> fsub E 0 0 < T \<and> s = 0 \<and> c = 0)"
proof (rule poll_loop.raw_induct [where P = "\<lambda>E I T cb s c rf w y.
          \<not> (now E = (\<lambda>i. 0) \<and> func E = (\<lambda>n. Returns (PyBool False))
            \<and> after_first_raises E = None \<and> fsub E 0 0 < T \<and> s = 0 \<and> c = 0)", OF _ assms])
  fix f :: "pw_env \<Rightarrow> real \<Rightarrow> real \<Rightarrow> bool \<Rightarrow> real \<Rightarrow> real \<Rightarrow> bool \<Rightarrow> pw_world \<Rightarrow> (pyval result \<times> pw_world) option"
  fix E I T cb s c rf w y
  assume ih: "\<And>E I T cb s c rf w y. f E I T cb s c rf w = Some y \<Longrightarrow>
          \<not> (now E = (\<lambda>i. 0) \<and> func E = (\<lambda>n. Returns (PyBool False))
            \<and> after_first_raises E = None \<and> fsub E 0 0 < T \<and> s = 0 \<and> c = 0)"
  assume body: "(if fsub E c s < T
      then case call_func E w of
           (Returns val, w1) \<Rightarrow>
             if truthy val then Some (Returns val, w1)
             else case if \<not> rf \<and> cb
                       then call_after_first E w1 else (Returns (), w1) of
                  (Returns u, w2) \<Rightarrow>
                    let t = fst (time_time E w2); w3 = snd (time_time E w2);
                        sleep = max (fsub E (fadd E c I) t) 0;
                        w4 = time_sleep sleep w3;
                        current_time' = fst (time_time E w4)
                    in Let (snd (time_time E w4)) (f E I T cb s current_time' True)
                  | (Raises e, w2) \<Rightarrow> Some (Raises e, w2)
           | (Raises e, w1) \<Rightarrow> Some (Raises e, w1)
      else Some (Raises WaitTimeout, w)) = Some y"
  show "\<not> (now E = (\<lambda>i. 0) \<and> func E = (\<lambda>n. Returns (PyBool False))
            \<and> after_first_raises E = None \<and> fsub E 0 0 < T \<and> s = 0 \<and> c = 0)"
  proof
    assume a: "now E = (\<lambda>i. 0) \<and> func E = (\<lambda>n. Returns (PyBool False))
            \<and> after_first_raises E = None \<and> fsub E 0 0 < T \<and> s = 0 \<and> c = 0"
    then have n: "now E = (\<lambda>i. 0)" and fl: "func E = (\<lambda>n. Returns (PyBool False))"
      and cr: "after_first_raises E = None" and sb: "fsub E 0 0 < T" and s: "s = 0" and c: "c = 0"
      by simp_all
    have "\<exists>w'. f E I T cb 0 0 True w' = Some y"
    proof (cases "\<not> rf \<and> cb")
      case True
      with body show ?thesis
        by (auto simp: s c sb call_func_def call_after_first_def time_time_def Let_def n fl cr)
    next
      case False
      with body show ?thesis
        by (auto simp: s c sb call_func_def call_after_first_def time_time_def Let_def n fl cr)
    qed
    then obtain w' where "f E I T cb 0 0 True w' = Some y" by blast
    from ih [OF this] a show False by simp
  qed
qed

lemma frozen_env_run: "poll_wait frozen_env 1 30 False = None"
proof (cases "poll_wait frozen_env 1 30 False")
  case None
  then show ?thesis .
next
  case (Some y)
  have "poll_wait frozen_env 1 30 False
      = poll_loop frozen_env 1 30 False (now frozen_env 0) (poll_time frozen_env 0) (0 < (0::nat))
          (world_at frozen_env 1 False 0)"
    by (intro poll_loop_falsy_steps) auto
  with Some have "poll_loop frozen_env 1 30 False 0 0 (0 < (0::nat)) (world_at frozen_env 1 False 0) = Some y"
    by (simp add: poll_time_def frozen_env_def)
  from still_loop_never_returns [OF this] show ?thesis by (simp add: frozen_env_def)
qed

lemma third_env_within:
  "\<forall>n. poll_time third_env 0 + of_nat 2 * 1 \<le> poll_time third_env n
        \<longrightarrow> (\<exists>v. func third_env n = Returns v \<and> truthy v)"
  by (simp add: third_env_poll_time) (simp add: third_env_def)

lemma third_env_never_raises: "\<forall>n. \<exists>v. func third_env n = Returns v"
  by (simp add: third_env_def)

lemma third_env_callback: "after_first_raises third_env = None"
  by (simp add: third_env_def)

lemma idle_env_never_raises: "\<forall>n. \<exists>v. func idle_env n = Returns v"
  by (simp add: idle_env_def)







section \<open>Properties of the harness\<close>

lemma emitsI: "(\<And>tr. \<exists>new. snd (m tr) = tr @ new \<and> list_all P new) \<Longrightarrow> emits P m"
  by (simp add: emits_def)

lemma emitsD: "emits P m \<Longrightarrow> \<exists>new. snd (m tr) = tr @ new \<and> list_all P new"
  by (simp add: emits_def)

lemma emits_issued:
  assumes "emits P m"
  shows "snd (m tr) = tr @ issued m tr" and "list_all P (issued m tr)"
proof -
  from emitsD [OF assms, of tr] obtain new where n: "snd (m tr) = tr @ new" "list_all P new"
    by blast
  then have "issued m tr = new" by (simp add: issued_def)
  with n show "snd (m tr) = tr @ issued m tr" and "list_all P (issued m tr)" by simp_all
qed

lemma emits_ret [intro!]: "emits P (ret x)"
  by (simp add: emits_def ret_def)

lemma emits_raise [intro!]: "emits P (raise e)"
  by (simp add: emits_def raise_def)

lemma emits_call [intro!]: "P c \<Longrightarrow> emits P (call E c)"
  by (auto simp: emits_def call_def split: option.splits)

lemma emits_ask [intro!]: "P c \<Longrightarrow> emits P (ask E c val)"
  by (auto simp: emits_def ask_def split: option.splits)

lemma emits_mark [intro!]: "P c \<Longrightarrow> emits P (mark c)"
  by (simp add: emits_def mark_def)

lemma emits_bnd [intro!]:
  assumes "emits P m" and "\<And>x. emits P (f x)"
  shows "emits P (bnd m f)"
proof (rule emitsI)
  fix tr
  from emitsD [OF assms(1), of tr] obtain n1 where n1: "snd (m tr) = tr @ n1" "list_all P n1"
    by blast
  show "\<exists>new. snd (bnd m f tr) = tr @ new \<and> list_all P new"
  proof (cases "fst (m tr)")
    case (Raises e)
    then have "bnd m f tr = (Raises e, tr @ n1)"
      using n1(1) by (cases "m tr") (simp add: bnd_def)
    then show ?thesis using n1(2) by simp
  next
    case (Returns x)
    then have b: "bnd m f tr = f x (tr @ n1)"
      using n1(1) by (cases "m tr") (simp add: bnd_def)
    from emitsD [OF assms(2), of x "tr @ n1"] obtain n2 where
      "snd (f x (tr @ n1)) = (tr @ n1) @ n2" "list_all P n2" by blast
    then show ?thesis using b n1(2) by (intro exI [of _ "n1 @ n2"]) simp
  qed
qed

lemma emits_block [intro!]: "(\<And>m. m \<in> set ms \<Longrightarrow> emits P m) \<Longrightarrow> emits P (block ms)"
  by (induction ms) auto

lemma emits_for_each [intro!]: "(\<And>x. emits P (body x)) \<Longrightarrow> emits P (for_each body xs)"
  by (induction xs) auto

lemma emits_try_finally [intro!]:
  assumes "emits P m" and "emits P fin"
  shows "emits P (try_finally m fin)"
proof (rule emitsI)
  fix tr
  from emitsD [OF assms(1), of tr] obtain n1 where n1: "snd (m tr) = tr @ n1" "list_all P n1"
    by blast
  from emitsD [OF assms(2), of "tr @ n1"] obtain n2 where
    n2: "snd (fin (tr @ n1)) = (tr @ n1) @ n2" "list_all P n2" by blast
  have "snd (try_finally m fin tr) = snd (fin (tr @ n1))"
    using n1(1) by (cases "m tr"; cases "fin (tr @ n1)") (auto simp: try_finally_def split: result.splits)
  then show "\<exists>new. snd (try_finally m fin tr) = tr @ new \<and> list_all P new"
    using n1(2) n2 by (intro exI [of _ "n1 @ n2"]) simp
qed

lemma emits_try_except [intro!]:
  assumes "emits P m" and "\<And>e k. h e = Some k \<Longrightarrow> emits P k"
  shows "emits P (try_except m h)"
proof (rule emitsI)
  fix tr
  from emitsD [OF assms(1), of tr] obtain n1 where n1: "snd (m tr) = tr @ n1" "list_all P n1"
    by blast
  show "\<exists>new. snd (try_except m h tr) = tr @ new \<and> list_all P new"
  proof (cases "fst (m tr)")
    case (Returns x)
    then have "try_except m h tr = (Returns x, tr @ n1)"
      using n1(1) by (cases "m tr") (simp add: try_except_def)
    then show ?thesis using n1(2) by simp
  next
    case (Raises e)
    show ?thesis
    proof (cases "h e")
      case None
      then have "try_except m h tr = (Raises e, tr @ n1)"
        using Raises n1(1) by (cases "m tr") (simp add: try_except_def)
      then show ?thesis using n1(2) by simp
    next
      case (Some k)
      then have t: "try_except m h tr = k (tr @ n1)"
        using Raises n1(1) by (cases "m tr") (simp add: try_except_def)
      from emitsD [OF assms(2) [OF Some], of "tr @ n1"] obtain n2 where
        "snd (k (tr @ n1)) = (tr @ n1) @ n2" "list_all P n2" by blast
      then show ?thesis using t n1(2) by (intro exI [of _ "n1 @ n2"]) simp
    qed
  qed
qed

lemma emits_top_level [intro!]: "emits P body \<Longrightarrow> emits P (top_level body)"
proof (rule emitsI)
  fix tr
  assume a: "emits P body"
  from emitsD [OF a, of tr] obtain n1 where n1: "snd (body tr) = tr @ n1" "list_all P n1"
    by blast
  have "snd (top_level body tr) = snd (body tr)"
    by (cases "body tr") (auto simp: top_level_def split: result.splits)
  then show "\<exists>new. snd (top_level body tr) = tr @ new \<and> list_all P new"
    using n1 by simp
qed

lemma emits_mono: "emits P m \<Longrightarrow> (\<And>c. P c \<Longrightarrow> Q c) \<Longrightarrow> emits Q m"
  unfolding emits_def by (metis (mono_tags, lifting) list.pred_mono_strong)

lemma check_server_ports_start_fails:
  assumes "raises E tr (Server_start port) = Some e"
  shows "check_server_ports E (port # ports) tr = (Returns False, tr @ [Server_start port])"
  using assms by (simp add: bnd_def try_except_def call_def ret_def)

lemma check_server_first_port_fails:
  assumes "all_return E tr session_calls"
    and "raises E (tr @ session_calls) (Server_start 8000) = Some e"
  shows "check_server E tr = (Returns False, tr @ session_calls @ [Server_start 8000])"
  using assms
    check_server_ports_start_fails [of E "tr @ session_calls" 8000 e "[8001]"]
  by (simp add: check_server_def session_calls_def bnd_def call_def ret_def try_except_def)

lemma port_busy_harness:
  "check_server port_busy [] =
     (Returns False, [DM_create, DM_forward, Adb_forward_list, Marionette_create,
                      Marionette_start_session, Wait_b2g_ready, Get_ip, Server_start 8000])"
  by (simp add: check_server_def port_busy_def quiet_def bnd_def call_def ret_def try_except_def)

lemma check_server_ports_True:
  "fst (check_server_ports E ports tr) = Returns True \<Longrightarrow>
     snd (check_server_ports E ports tr) = tr @ concat (map probe_calls ports)"
proof (induction ports arbitrary: tr)
  case Nil
  then show ?case by (simp add: ret_def)
next
  case (Cons port ports)
  let ?t4 = "tr @ probe_calls port"
  have step: "raises E tr (Server_start port) = None
      \<and> raises E (tr @ [Server_start port]) (Marionette_navigate port) = None
      \<and> raises E (tr @ [Server_start port, Marionette_navigate port]) Marionette_go_back = None
      \<and> raises E (tr @ [Server_start port, Marionette_navigate port, Marionette_go_back]) (Server_stop port) = None"
    using Cons.prems
    by (auto simp: bnd_def try_except_def try_finally_def call_def ret_def split: option.splits)
  then have eq: "check_server_ports E (port # ports) tr = check_server_ports E ports ?t4"
    by (simp add: bnd_def try_except_def try_finally_def call_def ret_def probe_calls_def)
  with Cons.prems have "fst (check_server_ports E ports ?t4) = Returns True" by simp
  from Cons.IH [OF this] eq show ?case by simp
qed

lemma check_server_True:
  assumes "fst (check_server E tr) = Returns True"
  shows "snd (check_server E tr) = tr @ session_calls @ probe_calls 8000 @ probe_calls 8001"
proof -
  have ar: "all_return E tr session_calls"
    using assms
    by (auto simp: check_server_def session_calls_def logcat_and_fail_def swallow_def
        bnd_def try_except_def call_def ret_def split: option.splits if_splits)
  then have eq: "check_server E tr = check_server_ports E [8000, 8001] (tr @ session_calls)"
    by (simp add: check_server_def session_calls_def bnd_def try_except_def call_def ret_def)
  with assms have "fst (check_server_ports E [8000, 8001] (tr @ session_calls)) = Returns True"
    by simp
  from check_server_ports_True [OF this] eq show ?thesis by simp
qed

lemma check_root_cases:
  "check_root E tr =
     (case raises E tr ADB_get_process_list of
        None \<Rightarrow> (Returns (scan_adbd (process_list E tr)), tr @ [ADB_get_process_list])
      | Some e \<Rightarrow> (Raises e, tr @ [ADB_get_process_list]))"
  by (simp add: check_root_def bnd_def ask_def ret_def split: option.splits)

lemma precondition_step_cases:
  "fst (precondition_step p tr) = Returns () \<or> fst (precondition_step p tr) = Raises (SystemExit 1)"
  by (cases "p tr" rule: prod.exhaust; cases "fst (p tr)")
     (auto simp: precondition_step_def bnd_def try_except_def ret_def raise_def split: result.splits)

lemma precondition_steps_cases:
  "fst (for_each precondition_step ps tr) = Returns ()
   \<or> fst (for_each precondition_step ps tr) = Raises (SystemExit 1)"
proof (induction ps arbitrary: tr)
  case Nil
  show ?case by (simp add: ret_def)
next
  case (Cons p ps)
  obtain r t where rt: "precondition_step p tr = (r, t)" by (cases "precondition_step p tr")
  with precondition_step_cases [of p tr] have "r = Returns () \<or> r = Raises (SystemExit 1)" by simp
  then show ?case
  proof
    assume "r = Returns ()"
    then show ?thesis using rt Cons [of t] by (simp add: bnd_def)
  next
    assume "r = Raises (SystemExit 1)"
    then show ?thesis using rt by (simp add: bnd_def)
  qed
qed

lemma check_preconditions_exits:
  "fst (check_preconditions E cfg tr) = Raises (SystemExit 1)"
proof -
  let ?ps = "[check_adb E, check_marionette_installed E cfg, check_network E, check_server E]"
  obtain r t where rt: "for_each precondition_step ?ps tr = (r, t)"
    by (cases "for_each precondition_step ?ps tr")
  with precondition_steps_cases [of ?ps tr] have "r = Returns () \<or> r = Raises (SystemExit 1)"
    by simp
  then show ?thesis
    using rt by (auto simp: check_preconditions_def bnd_def raise_def simp del: for_each.simps)
qed

lemma emits_check_network_loop:
  "emits (\<lambda>c. \<not> in_backup_block c \<and> c \<noteq> Zip_close) (check_network_loop E n)"
  by (induction n) auto

lemma emits_check_server_ports:
  "emits (\<lambda>c. \<not> in_backup_block c \<and> c \<noteq> Zip_close) (check_server_ports E ports)"
  by (induction ports) auto

lemma emits_check_preconditions:
  "emits (\<lambda>c. \<not> in_backup_block c \<and> c \<noteq> Zip_close) (check_preconditions E cfg)"
  unfolding check_preconditions_def precondition_step_def check_adb_def
    check_marionette_installed_def install_marionette_def check_network_def check_server_def
    logcat_and_fail_def swallow_def
  by (auto intro!: emits_check_network_loop emits_check_server_ports split: option.splits if_splits)

lemma never_returns_bnd_left: "never_returns m \<Longrightarrow> never_returns (bnd m f)"
  unfolding never_returns_def
proof
  fix tr
  assume a: "\<forall>tr. \<exists>e. fst (m tr) = Raises e"
  then obtain e where "fst (m tr) = Raises e" by blast
  then have "fst (bnd m f tr) = Raises e" by (cases "m tr") (simp add: bnd_def)
  then show "\<exists>e. fst (bnd m f tr) = Raises e" by blast
qed

lemma never_returns_bnd_right: "(\<And>x. never_returns (f x)) \<Longrightarrow> never_returns (bnd m f)"
  unfolding never_returns_def
proof
  fix tr
  assume a: "\<And>x. \<forall>tr. \<exists>e. fst (f x tr) = Raises e"
  show "\<exists>e. fst (bnd m f tr) = Raises e"
  proof (cases "m tr")
    case (Pair r t)
    then show ?thesis using a by (cases r) (auto simp: bnd_def)
  qed
qed

lemma never_returns_try_finally: "never_returns m \<Longrightarrow> never_returns (try_finally m fin)"
  unfolding never_returns_def
proof
  fix tr
  assume a: "\<forall>tr. \<exists>e. fst (m tr) = Raises e"
  then obtain e where e: "fst (m tr) = Raises e" by blast
  show "\<exists>e. fst (try_finally m fin tr) = Raises e"
    using e by (cases "m tr"; cases "fin (snd (m tr))") (auto simp: try_finally_def split: result.splits)
qed

lemma emits_bnd_never:
  assumes "emits P m" and "never_returns m"
  shows "emits P (bnd m f)"
proof (rule emitsI)
  fix tr
  from assms(2) obtain e where "fst (m tr) = Raises e" unfolding never_returns_def by blast
  then have "snd (bnd m f tr) = snd (m tr)" by (cases "m tr") (simp add: bnd_def)
  then show "\<exists>new. snd (bnd m f tr) = tr @ new \<and> list_all P new"
    using emitsD [OF assms(1), of tr] by simp
qed

lemma never_returns_check_preconditions: "never_returns (check_preconditions E cfg)"
  unfolding never_returns_def using check_preconditions_exits by blast

lemma never_returns_gate_block:
  "never_returns gate \<Longrightarrow> never_returns (block [a, b, gate])"
  unfolding block.simps
  by (rule never_returns_bnd_right, rule never_returns_bnd_right, rule never_returns_bnd_left)

lemma top_level_not_zero:
  assumes "never_returns body"
  shows "fst (top_level body tr) \<noteq> Returns 0"
proof -
  from assms obtain e where "fst (body tr) = Raises e" unfolding never_returns_def by blast
  then show ?thesis by (cases "body tr") (auto simp: top_level_def)
qed

lemma run_tests_body_never_returns:
  "never_returns (with_LogManager E
          (bnd (block [call E Setup_logging, call E Get_metadata, check_preconditions E cfg]) f))"
  unfolding with_LogManager_def
  by (intro never_returns_bnd_right never_returns_try_finally never_returns_bnd_left
      never_returns_gate_block never_returns_check_preconditions)

lemma run_tests_not_zero: "fst (run_tests E tests cfg tr) \<noteq> Returns 0"
  unfolding run_tests_def run_tests_with_def
  by (rule top_level_not_zero) (rule run_tests_body_never_returns)

lemma emits_LogManager_exit: "emits (\<lambda>c. \<not> in_backup_block c) (LogManager_exit E)"
  unfolding LogManager_exit_def add_summary_report_def by auto

lemma emits_run_tests: "emits (\<lambda>c. \<not> in_backup_block c) (run_tests E tests cfg)"
proof -
  let ?P = "\<lambda>c. \<not> in_backup_block c"
  let ?pre = "block [call E Setup_logging, call E Get_metadata, check_preconditions E cfg]"
  have "emits ?P (check_preconditions E cfg)"
    by (rule emits_mono [OF emits_check_preconditions]) simp
  then have "emits ?P ?pre"
    by auto
  moreover have "never_returns ?pre"
    by (intro never_returns_gate_block never_returns_check_preconditions)
  ultimately have body: "emits ?P (bnd ?pre
      (\<lambda>_. with_DeviceBackup E (\<lambda>device. suite_loop E cfg device False (iter_suites tests cfg))))"
    by (rule emits_bnd_never)
  have enter: "emits ?P (LogManager_enter E)"
    unfolding LogManager_enter_def by auto
  have "emits ?P (with_LogManager E (bnd ?pre
      (\<lambda>_. with_DeviceBackup E (\<lambda>device. suite_loop E cfg device False (iter_suites tests cfg)))))"
    unfolding with_LogManager_def
    by (rule emits_bnd [OF enter]) (rule emits_try_finally [OF body emits_LogManager_exit])
  then show ?thesis
    unfolding run_tests_def run_tests_with_def by (rule emits_top_level)
qed

lemma check_network_loop_40:
  "check_network_loop E 40 =
     bnd (ask E DM_netcfg (netcfg_up E)) (\<lambda>active.
       bnd (call E (Time_sleep 1)) (\<lambda>_.
         if active then ret True else check_network_loop E 39))"
proof -
  have "(40::nat) = Suc 39" by simp
  then show ?thesis by (simp only: check_network_loop.simps)
qed

lemma quiet_call: "call quiet c tr = (Returns (), tr @ [c])"
  by (simp add: call_def quiet_def)

lemma quiet_checks:
  "check_adb quiet tr = (Returns True, tr @ [DM_create])"
  "check_marionette_installed quiet cfg0 tr = (Returns True, tr @ [DM_create, Marionette_install, Time_sleep 10])"
  "check_network quiet tr = (Returns True, tr @ [DM_create, DM_netcfg, Time_sleep 1])"
  "check_server quiet tr = (Returns True, tr @ session_calls @ probe_calls 8000 @ probe_calls 8001)"
  by (simp_all add: check_adb_def check_marionette_installed_def install_marionette_def
      check_network_def check_network_loop_40 check_server_def cfg0_def quiet_def
      session_calls_def probe_calls_def
      bnd_def call_def ask_def ret_def try_except_def try_finally_def)

lemma quiet_check_preconditions:
  "check_preconditions quiet cfg0 tr = (Raises (SystemExit 1), tr @ precondition_calls)"
  by (simp add: check_preconditions_def precondition_step_def quiet_checks precondition_calls_def
      bnd_def ret_def raise_def try_except_def)

lemma quiet_LogManager_exit: "LogManager_exit quiet tr = (Returns (), tr @ exit_calls)"
  by (simp add: LogManager_exit_def add_summary_report_def exit_calls_def quiet_call
      bnd_def ret_def try_finally_def)

lemma quiet_run_tests:
  "run_tests quiet [''suiteA''] cfg0 [] =
     (Raises (SystemExit 1),
      [Zip_open, Log_open, Setup_logging, Get_metadata] @ precondition_calls @ exit_calls)"
  by (simp add: run_tests_def run_tests_with_def with_LogManager_def LogManager_enter_def
      top_level_def try_finally_def bnd_def ret_def quiet_call quiet_check_preconditions
      quiet_LogManager_exit)

lemma plain_simps [simp]:
  "plain Tempdir_enter" "plain (Tempdir_exit p)" "plain (Proc_create argv)" "plain Proc_run"
  "plain Proc_wait" "plain Proc_kill" "plain (Zip_write a b)" "plain (Zip_writestr a)"
  "plain (Report_parse_log a)" "plain Report_subsuite" "plain (DM_removeFile a)"
  "plain (DM_pushFile a a')" "plain (DM_removeDir a)" "plain (DM_pushDir a a')" "plain (DM_reboot w)"
  by (simp_all add: plain_def)

lemma emits_run_test: "emits plain (run_test E cfg suite groups temp_dir)"
  unfolding run_test_def swallow_def
  by (auto split: sum.splits prod.splits)

lemma emits_add_subsuite_report: "emits plain (add_subsuite_report E path)"
  unfolding add_subsuite_report_def by (auto split: prod.splits)

lemma emits_run_suite_rest:
  "emits plain (bnd (ask E Tempdir_enter (tempdir_path E)) (\<lambda>temp_dir.
       try_finally
         (bnd (run_test E cfg suite groups temp_dir) (\<lambda>(result_files, log_path).
            block [for_each (\<lambda>path. add_file E path (suite @ ''/'' @ basename path)) result_files,
                   add_subsuite_report E log_path]))
         (call E (Tempdir_exit temp_dir))))"
  by (auto intro!: emits_run_test emits_add_subsuite_report simp: add_file_def split: prod.splits)

lemma run_suite_trace:
  "\<exists>new. snd (run_suite E cfg suite groups tr) = tr @ Enter_run_suite suite # new \<and> list_all plain new"
proof -
  let ?rest = "bnd (ask E Tempdir_enter (tempdir_path E)) (\<lambda>temp_dir.
       try_finally
         (bnd (run_test E cfg suite groups temp_dir) (\<lambda>(result_files, log_path).
            block [for_each (\<lambda>path. add_file E path (suite @ ''/'' @ basename path)) result_files,
                   add_subsuite_report E log_path]))
         (call E (Tempdir_exit temp_dir)))"
  have "run_suite E cfg suite groups tr = ?rest (tr @ [Enter_run_suite suite])"
    by (simp add: run_suite_def bnd_def mark_def)
  moreover from emitsD [OF emits_run_suite_rest, of E cfg suite groups "tr @ [Enter_run_suite suite]"]
  obtain new where "snd (?rest (tr @ [Enter_run_suite suite])) = (tr @ [Enter_run_suite suite]) @ new"
    "list_all plain new" by blast
  ultimately show ?thesis by auto
qed

lemma emits_restore_rest:
  "emits plain (block [for_each (restore_file E self) (backup_files self),
            for_each (restore_dir E self) (backup_dirs self),
            call E (DM_reboot True)])"
  by (auto simp: restore_file_def restore_dir_def Let_def split: option.splits prod.splits)

lemma restore_trace:
  "\<exists>new. snd (restore E self tr) = tr @ DM_remount # new \<and> list_all plain new"
proof -
  let ?rest = "block [for_each (restore_file E self) (backup_files self),
            for_each (restore_dir E self) (backup_dirs self),
            call E (DM_reboot True)]"
  from emitsD [OF emits_restore_rest, of E self "tr @ [DM_remount]"]
  obtain new where n: "snd (?rest (tr @ [DM_remount])) = (tr @ [DM_remount]) @ new"
    "list_all plain new" by blast
  show ?thesis
  proof (cases "raises E tr DM_remount")
    case None
    then have "restore E self tr = ?rest (tr @ [DM_remount])"
      by (simp add: restore_def bnd_def call_def)
    with n show ?thesis by auto
  next
    case (Some e)
    then have "restore E self tr = (Raises e, tr @ [DM_remount])"
      by (simp add: restore_def bnd_def call_def)
    then show ?thesis by simp
  qed
qed

lemma filter_plain_marks: "list_all plain new \<Longrightarrow> filter is_step_mark new = []"
  by (induction new) (auto simp: plain_def)

lemma filter_plain_cleanup: "list_all plain new \<Longrightarrow> filter cleanup_call new = []"
  by (induction new) (auto simp: plain_def)

text \<open>
  The loop over the suites, taken on its own: what one round and the whole loop do once
  they are entered. \<open>run_tests\<close> never enters the loop (see C1 and C2 below).
\<close>

lemma suite_step_trace:
  "\<exists>new. snd (suite_step E cfg device error sg tr) = tr @ new
         \<and> filter is_step_mark new = [Enter_run_suite (fst sg), DM_remount]
         \<and> filter cleanup_call new = []"
proof -
  from run_suite_trace [of E cfg "fst sg" "snd sg" tr] obtain n1 where
    n1: "snd (run_suite E cfg (fst sg) (snd sg) tr) = tr @ Enter_run_suite (fst sg) # n1"
    "list_all plain n1" by blast
  let ?t1 = "tr @ Enter_run_suite (fst sg) # n1"
  from restore_trace [of E device ?t1] obtain n2 where
    n2: "snd (restore E device ?t1) = ?t1 @ DM_remount # n2" "list_all plain n2" by blast
  have body: "snd (try_except (bnd (run_suite E cfg (fst sg) (snd sg)) (\<lambda>_. ret error))
          (\<lambda>e. Some (ret True)) tr) = ?t1"
    using n1(1) by (cases "run_suite E cfg (fst sg) (snd sg) tr")
      (auto simp: try_except_def bnd_def ret_def split: result.splits)
  have "snd (suite_step E cfg device error sg tr) = snd (restore E device ?t1)"
    unfolding suite_step_def using body
    by (cases "try_except (bnd (run_suite E cfg (fst sg) (snd sg)) (\<lambda>_. ret error))
          (\<lambda>e. Some (ret True)) tr"; cases "restore E device ?t1")
       (auto simp: try_finally_def split: result.splits)
  then have "snd (suite_step E cfg device error sg tr)
      = tr @ (Enter_run_suite (fst sg) # n1 @ DM_remount # n2)"
    using n2(1) by simp
  moreover have "filter is_step_mark (Enter_run_suite (fst sg) # n1 @ DM_remount # n2)
      = [Enter_run_suite (fst sg), DM_remount]"
    using filter_plain_marks [OF n1(2)] filter_plain_marks [OF n2(2)] by simp
  moreover have "filter cleanup_call (Enter_run_suite (fst sg) # n1 @ DM_remount # n2) = []"
    using filter_plain_cleanup [OF n1(2)] filter_plain_cleanup [OF n2(2)] by simp
  ultimately show ?thesis by blast
qed

lemma suite_step_result:
  assumes "\<forall>tr'. fst (restore E device tr') = Returns ()"
  shows "fst (suite_step E cfg device error sg tr)
       = Returns (case fst (run_suite E cfg (fst sg) (snd sg) tr) of
                    Returns u \<Rightarrow> error | Raises e \<Rightarrow> True)"
proof -
  obtain r t where rt: "run_suite E cfg (fst sg) (snd sg) tr = (r, t)"
    by (cases "run_suite E cfg (fst sg) (snd sg) tr")
  obtain t' where t': "restore E device t = (Returns (), t')"
    using assms by (cases "restore E device t") (metis fst_conv)
  show ?thesis
    using rt t' by (cases r) (simp_all add: suite_step_def try_finally_def try_except_def bnd_def ret_def)
qed

lemma suite_loop_runs_all:
  assumes "\<forall>tr'. fst (restore E device tr') = Returns ()"
  shows "\<exists>b new. suite_loop E cfg device error todo tr = (Returns b, tr @ new)
           \<and> (error \<longrightarrow> b) \<and> filter is_step_mark new = step_marks todo"
proof (induction todo arbitrary: error tr)
  case Nil
  show ?case by (simp add: ret_def step_marks_def)
next
  case (Cons sg rest)
  let ?e1 = "case fst (run_suite E cfg (fst sg) (snd sg) tr) of Returns u \<Rightarrow> error | Raises e \<Rightarrow> True"
  from suite_step_trace [of E cfg device error sg tr] obtain n1 where
    n1: "snd (suite_step E cfg device error sg tr) = tr @ n1"
    "filter is_step_mark n1 = [Enter_run_suite (fst sg), DM_remount]" by blast
  have st: "suite_step E cfg device error sg tr = (Returns ?e1, tr @ n1)"
    using suite_step_result [OF assms, of cfg error sg tr] n1(1)
    by (cases "suite_step E cfg device error sg tr") simp
  from Cons [of ?e1 "tr @ n1"] obtain b n2 where
    n2: "suite_loop E cfg device ?e1 rest (tr @ n1) = (Returns b, (tr @ n1) @ n2)"
    "?e1 \<longrightarrow> b" "filter is_step_mark n2 = step_marks rest" by blast
  have e1: "error \<longrightarrow> ?e1" by (auto split: result.splits)
  have "suite_loop E cfg device error (sg # rest) tr = (Returns b, tr @ (n1 @ n2))"
    using st n2(1) by (simp add: bnd_def)
  moreover have "error \<longrightarrow> b" using e1 n2(2) by blast
  moreover have "filter is_step_mark (n1 @ n2) = step_marks (sg # rest)"
    using n1(2) n2(3) by (simp add: step_marks_def)
  ultimately show ?case by blast
qed

lemma suite_loop_first_raises:
  assumes "fst (run_suite E cfg (fst sg) (snd sg) tr) = Raises e"
    and "\<forall>tr'. fst (restore E device tr') = Returns ()"
  shows "\<exists>new. suite_loop E cfg device False (sg # rest) tr = (Returns True, tr @ new)
           \<and> filter is_step_mark new = step_marks (sg # rest)"
proof -
  from suite_step_trace [of E cfg device False sg tr] obtain n1 where
    n1: "snd (suite_step E cfg device False sg tr) = tr @ n1"
    "filter is_step_mark n1 = [Enter_run_suite (fst sg), DM_remount]" by blast
  have st: "suite_step E cfg device False sg tr = (Returns True, tr @ n1)"
    using suite_step_result [OF assms(2), of cfg False sg tr] n1(1) assms(1)
    by (cases "suite_step E cfg device False sg tr") simp
  from suite_loop_runs_all [OF assms(2), of cfg True rest "tr @ n1"] obtain b n2 where
    n2: "suite_loop E cfg device True rest (tr @ n1) = (Returns b, (tr @ n1) @ n2)"
    "b" "filter is_step_mark n2 = step_marks rest" by blast
  have "suite_loop E cfg device False (sg # rest) tr = (Returns True, tr @ (n1 @ n2))"
    using st n2(1,2) by (simp add: bnd_def)
  moreover have "filter is_step_mark (n1 @ n2) = step_marks (sg # rest)"
    using n1(2) n2(3) by (simp add: step_marks_def)
  ultimately show ?thesis by blast
qed

lemma try_finally_issued:
  assumes "snd (m tr) = tr @ n1" and "snd (fin (tr @ n1)) = (tr @ n1) @ n2"
  shows "snd (try_finally m fin tr) = tr @ n1 @ n2"
  using assms by (cases "m tr"; cases "fin (tr @ n1)") (auto simp: try_finally_def split: result.splits)

lemma LogManager_exit_trace:
  "\<exists>new. snd (LogManager_exit E tr) = tr @ new @ [Os_unlink structured_path, Zip_close]
         \<and> filter cleanup_call new = []"
proof -
  let ?body = "block [call E Log_close, call E (Zip_write structured_path None),
               add_summary_report E structured_path]"
  have "emits plain ?body"
    unfolding add_summary_report_def by (auto simp: plain_def)
  from emitsD [OF this, of tr] obtain new where n: "snd (?body tr) = tr @ new" "list_all plain new"
    by blast
  have f: "snd (try_finally (call E (Os_unlink structured_path)) (call E Zip_close) (tr @ new))
      = (tr @ new) @ [Os_unlink structured_path, Zip_close]"
    by (auto simp: try_finally_def call_def split: option.splits)
  have "snd (LogManager_exit E tr) = tr @ new @ [Os_unlink structured_path, Zip_close]"
    unfolding LogManager_exit_def
    using try_finally_issued [of ?body tr new
        "try_finally (call E (Os_unlink structured_path)) (call E Zip_close)"
        "[Os_unlink structured_path, Zip_close]"] n(1) f
    by simp
  then show ?thesis using filter_plain_cleanup [OF n(2)] by blast
qed

lemma top_level_snd: "snd (top_level body tr) = snd (body tr)"
  by (cases "body tr") (auto simp: top_level_def split: result.splits)

section \<open>The claims about the harness\<close>

lemma quiet_ask: "ask quiet c val tr = (Returns (val tr), tr @ [c])"
  by (simp add: ask_def quiet_def)

lemma quiet_restore:
  "restore quiet (harness_DeviceBackup p) tr
     = (Returns (), tr @ spec_restore (harness_DeviceBackup p) @ [DM_reboot True])"
  by (simp add: restore_def restore_file_def restore_dir_def harness_DeviceBackup_def quiet_call
      spec_restore_def spec_file_steps_def spec_dir_steps_def local_file_def
      bnd_def ret_def rsplit_slash_def Let_def)

lemma quiet_run_suite_missing:
  "run_suite quiet cfg1 ''suiteA'' [] tr
     = (Raises (KeyError ''suiteA''),
        tr @ [Enter_run_suite ''suiteA'', Tempdir_enter, Tempdir_exit ''/tmp/tmpS''])"
  by (simp add: run_suite_def run_test_def build_command_def cfg1_def quiet_call quiet_ask
      mark_def bnd_def raise_def try_finally_def)
     (simp add: quiet_def)

lemma iter_suites_example:
  "iter_suites [''suiteA'', ''suiteB:g1''] cfg1 = [(''suiteA'', []), (''suiteB'', [''g1''])]"
  by (simp add: iter_suites_def split_colon_def od_touch_def Let_def)

lemma run_tests_cleanup:
  assumes "fst (LogManager_enter E tr) = Returns ()"
  shows "filter cleanup_call (issued (run_tests E tests cfg) tr) = [Zip_close]"
proof -
  let ?pre = "block [call E Setup_logging, call E Get_metadata, check_preconditions E cfg]"
  let ?f = "\<lambda>_::unit. with_DeviceBackup E (\<lambda>device. suite_loop E cfg device False (iter_suites tests cfg))"
  let ?Q = "\<lambda>c. \<not> in_backup_block c \<and> c \<noteq> Zip_close"
  have en: "LogManager_enter E tr = (Returns (), tr @ [Zip_open, Log_open])"
    using assms
    by (auto simp: LogManager_enter_def bnd_def call_def ret_def split: option.splits)
  let ?t1 = "tr @ [Zip_open, Log_open]"
  have "emits ?Q ?pre"
    using emits_check_preconditions [of E cfg] by auto
  from emitsD [OF this, of ?t1] obtain n1 where
    n1: "snd (?pre ?t1) = ?t1 @ n1" "list_all ?Q n1" by blast
  have nr: "never_returns ?pre"
    by (intro never_returns_gate_block never_returns_check_preconditions)
  then obtain e where "fst (?pre ?t1) = Raises e" unfolding never_returns_def by blast
  then have body: "snd (bnd ?pre ?f ?t1) = ?t1 @ n1"
    using n1(1) by (cases "?pre ?t1") (simp add: bnd_def)
  from LogManager_exit_trace [of E "?t1 @ n1"] obtain n2 where
    n2: "snd (LogManager_exit E (?t1 @ n1)) = (?t1 @ n1) @ n2 @ [Os_unlink structured_path, Zip_close]"
    "filter cleanup_call n2 = []" by blast
  have "snd (try_finally (bnd ?pre ?f) (LogManager_exit E) ?t1)
      = ?t1 @ n1 @ (n2 @ [Os_unlink structured_path, Zip_close])"
    using try_finally_issued [of "bnd ?pre ?f" ?t1 n1 "LogManager_exit E"
        "n2 @ [Os_unlink structured_path, Zip_close]"] body n2(1)
    by simp
  then have "snd (run_tests E tests cfg tr)
      = tr @ [Zip_open, Log_open] @ n1 @ n2 @ [Os_unlink structured_path, Zip_close]"
    using en
    by (simp add: run_tests_def run_tests_with_def with_LogManager_def top_level_snd bnd_def)
  then have i: "issued (run_tests E tests cfg) tr
      = [Zip_open, Log_open] @ n1 @ n2 @ [Os_unlink structured_path, Zip_close]"
    by (simp add: issued_def)
  have "filter cleanup_call n1 = []"
    using n1(2) by (induction n1) (auto elim: cleanup_call.elims)
  then show ?thesis using i n2(2) by simp
qed

lemma quiet_fields:
  "raises quiet tr c = None"
  "process_list quiet tr = [(''1'', ''/init'', ''root''), (''87'', ''/sbin/adbd'', ''root'')]"
  by (simp_all add: quiet_def)

text \<open>
  C1. The claim fails on harness.py. In an environment where every precondition check
  returns \<open>True\<close>, \<open>check_preconditions\<close> still ends in \<open>SystemExit(1)\<close>, and so does
  \<open>run_tests\<close>, having closed the archive and without a single call of the backup block
  or of a suite: the exit status is 1. In every environment \<open>check_preconditions\<close> raises
  \<open>SystemExit(1)\<close>; it never returns to \<open>run_tests\<close>.
\<close>

theorem passing_preconditions_still_exit:
  "check_adb quiet tr = (Returns True, tr @ [DM_create])
   \<and> check_marionette_installed quiet cfg0 tr
       = (Returns True, tr @ [DM_create, Marionette_install, Time_sleep 10])
   \<and> check_network quiet tr = (Returns True, tr @ [DM_create, DM_netcfg, Time_sleep 1])
   \<and> check_server quiet tr = (Returns True, tr @ session_calls @ probe_calls 8000 @ probe_calls 8001)
   \<and> check_preconditions quiet cfg0 tr = (Raises (SystemExit 1), tr @ precondition_calls)
   \<and> run_tests quiet [''suiteA''] cfg0 [] =
       (Raises (SystemExit 1),
        [Zip_open, Log_open, Setup_logging, Get_metadata] @ precondition_calls @ exit_calls)
   \<and> exit_status (fst (run_tests quiet [''suiteA''] cfg0 [])) = 1
   \<and> filter in_backup_block (snd (run_tests quiet [''suiteA''] cfg0 [])) = []
   \<and> fst (check_preconditions E cfg tr') = Raises (SystemExit 1)"
proof -
  have "filter in_backup_block
      ([Zip_open, Log_open, Setup_logging, Get_metadata] @ precondition_calls @ exit_calls) = []"
    by (simp add: precondition_calls_def exit_calls_def session_calls_def probe_calls_def)
  then show ?thesis
    using quiet_checks [of tr] quiet_check_preconditions [of tr] quiet_run_tests
      check_preconditions_exits [of E cfg tr']
    by simp
qed

lemma global_logger_True: "global_logger True tr = (Returns (), tr)"
  by (simp add: global_logger_def ret_def)

lemma global_logger_False: "global_logger False tr = (Raises NameError, tr)"
  by (simp add: global_logger_def raise_def)

lemma adb_check_server_ports_start_fails:
  assumes "raises E tr (Server_start port) = Some e"
  shows "adb_check_server_ports E True (port # ports) tr = (Returns False, tr @ [Server_start port])"
  using assms by (simp add: bnd_def try_except_def call_def ret_def global_logger_True)

lemma adb_check_server_first_port_fails:
  assumes "raises E tr Get_ip = None"
    and "raises E (tr @ [Get_ip]) (Server_start 8000) = Some e"
  shows "adb_check_server E True tr = (Returns False, tr @ [Get_ip, Server_start 8000])"
  using assms adb_check_server_ports_start_fails [of E "tr @ [Get_ip]" 8000 e "[8001]"]
  by (simp add: adb_check_server_def bnd_def call_def global_logger_True)

lemma port_busy_adb:
  "adb_check_server port_busy True [] = (Returns False, [Get_ip, Server_start 8000])"
  by (simp add: adb_check_server_def port_busy_def quiet_def bnd_def call_def ret_def
      try_except_def global_logger_True)

lemma adb_check_server_unbound: "adb_check_server E False tr = (Raises NameError, tr)"
  by (simp add: adb_check_server_def bnd_def global_logger_False)

lemma adb_check_server_True:
  assumes "fst (adb_check_server E logger_bound tr) = Returns True"
  shows "logger_bound \<and> raises E tr Get_ip = None
       \<and> raises E (tr @ [Get_ip]) (Server_start 8000) = None"
proof -
  have lb: logger_bound
    using assms by (cases logger_bound) (simp_all add: adb_check_server_unbound)
  have ip: "raises E tr Get_ip = None"
    using assms lb
    by (cases "raises E tr Get_ip")
       (simp_all add: adb_check_server_def bnd_def call_def global_logger_True)
  have "raises E (tr @ [Get_ip]) (Server_start 8000) = None"
  proof (cases "raises E (tr @ [Get_ip]) (Server_start 8000)")
    case None
    then show ?thesis .
  next
    case (Some e)
    from adb_check_server_first_port_fails [OF ip Some] assms lb show ?thesis by simp
  qed
  with lb ip show ?thesis by simp
qed

lemma all_return_append:
  "all_return E tr (xs @ ys) = (all_return E tr xs \<and> all_return E (tr @ xs) ys)"
  by (induction xs arbitrary: tr) auto

lemma check_server_ports_all_return:
  "fst (check_server_ports E ports tr) = Returns True \<Longrightarrow>
     all_return E tr (concat (map probe_calls ports))"
proof (induction ports arbitrary: tr)
  case Nil
  then show ?case by simp
next
  case (Cons port ports)
  let ?t4 = "tr @ probe_calls port"
  have step: "raises E tr (Server_start port) = None
      \<and> raises E (tr @ [Server_start port]) (Marionette_navigate port) = None
      \<and> raises E (tr @ [Server_start port, Marionette_navigate port]) Marionette_go_back = None
      \<and> raises E (tr @ [Server_start port, Marionette_navigate port, Marionette_go_back]) (Server_stop port) = None"
    using Cons.prems
    by (auto simp: bnd_def try_except_def try_finally_def call_def ret_def split: option.splits)
  then have eq: "check_server_ports E (port # ports) tr = check_server_ports E ports ?t4"
    by (simp add: bnd_def try_except_def try_finally_def call_def ret_def probe_calls_def)
  with Cons.prems have "fst (check_server_ports E ports ?t4) = Returns True" by simp
  from Cons.IH [OF this] have "all_return E ?t4 (concat (map probe_calls ports))" .
  moreover have "all_return E tr (probe_calls port)"
    using step by (simp add: probe_calls_def)
  ultimately show ?case by (simp add: all_return_append)
qed

lemma check_server_all_return:
  assumes "fst (check_server E tr) = Returns True"
  shows "all_return E tr (session_calls @ probe_calls 8000 @ probe_calls 8001)"
proof -
  have ar: "all_return E tr session_calls"
    using assms
    by (auto simp: check_server_def session_calls_def logcat_and_fail_def swallow_def
        bnd_def try_except_def call_def ret_def split: option.splits if_splits)
  then have eq: "check_server E tr = check_server_ports E [8000, 8001] (tr @ session_calls)"
    by (simp add: check_server_def session_calls_def bnd_def try_except_def call_def ret_def)
  with assms have "fst (check_server_ports E [8000, 8001] (tr @ session_calls)) = Returns True"
    by simp
  from check_server_ports_all_return [OF this] ar show ?thesis
    by (simp add: all_return_append)
qed

lemma root_absent_checks:
  assumes "fst (check_root E tr) = Returns False"
  shows "try_except (adb_checks E logger_bound) h tr = (Returns False, tr @ [ADB_get_process_list])"
  using assms
  by (auto simp: adb_checks_def and_also_def check_root_cases bnd_def try_except_def ret_def
      split: option.splits)

lemma root_raises_checks:
  assumes "fst (check_root E tr) = Raises e"
  shows "adb_checks E logger_bound tr = (Raises e, tr @ [ADB_get_process_list])"
  using assms
  by (auto simp: adb_checks_def and_also_def check_root_cases bnd_def split: option.splits)

lemma root_fails_checks:
  assumes "fst (check_root E tr) = Returns False
         \<or> (logger_bound \<and> fst (check_root E tr) \<noteq> Returns True)"
  shows "try_except (adb_checks E logger_bound)
           (\<lambda>e. Some (bnd (global_logger logger_bound) (\<lambda>_. ret False))) tr
       = (Returns False, tr @ [ADB_get_process_list])"
proof (cases "fst (check_root E tr)")
  case (Returns b)
  with assms have "fst (check_root E tr) = Returns False" by auto
  then show ?thesis by (rule root_absent_checks)
next
  case (Raises e)
  with assms have lb: logger_bound by auto
  from root_raises_checks [OF Raises] lb show ?thesis
    by (simp add: try_except_def bnd_def ret_def global_logger_True)
qed

text \<open>
  A root check that raises, in the module after an import: the \<open>except\<close> clause of
  \<open>check_preconditions\<close> raises \<open>NameError\<close>, and the device is not rebooted.
\<close>

lemma root_raises_unbound:
  assumes "fst (check_root E tr) = Raises e"
  shows "adb_check_preconditions E False True tr = (Raises NameError, tr @ [ADB_get_process_list])"
  using root_raises_checks [OF assms, of False]
  by (simp add: adb_check_preconditions_def try_except_def bnd_def global_logger_False)

lemma listing_fails_check_root:
  "check_root listing_fails [] = (Raises (ADBError ''device offline''), [ADB_get_process_list])"
  by (simp add: check_root_cases listing_fails_def quiet_def)

lemma listing_fails_unbound:
  "adb_check_preconditions listing_fails False True [] = (Raises NameError, [ADB_get_process_list])"
  using root_raises_unbound [of listing_fails "[]" "ADBError ''device offline''"]
  by (simp add: listing_fails_check_root)

lemma adb_cp_returns:
  assumes "fst (adb_check_preconditions E logger_bound has_device tr) = Returns b"
  shows "has_device \<and> logger_bound \<and> b \<and> fst (adb_checks E logger_bound tr) = Returns True"
proof -
  have hd: has_device using assms by (auto simp: adb_check_preconditions_def raise_def split: if_splits)
  obtain r t where rt: "adb_checks E logger_bound tr = (r, t)" by (cases "adb_checks E logger_bound tr")
  show ?thesis
    using assms hd rt
    by (cases r; cases logger_bound)
       (auto simp: adb_check_preconditions_def bnd_def try_except_def ret_def call_def raise_def
          global_logger_True global_logger_False
          split: option.splits if_splits)
qed

lemma unrooted_check_root: "check_root unrooted [] = (Returns False, [ADB_get_process_list])"
  by (simp add: check_root_cases unrooted_def quiet_def)

lemma quiet_adb_checks:
  "adb_checks quiet True [] =
     (Returns True,
      [ADB_get_process_list, Marionette_install, ADB_restart,
       Marionette_create, Session_enter, Settings_set ''screen.automatic-brightness'',
       Settings_set ''screen.brightness'', Settings_set ''screen.timeout'', Session_exit,
       ADB_wait_for_net, Get_ip,
       Server_start 8000, ADB_curl 8000, Server_stop 8000,
       Server_start 8001, ADB_curl 8001, Server_stop 8001])"
  by (simp add: adb_checks_def and_also_def check_root_cases adb_install_marionette_def
      ensure_settings_def adb_check_network_def adb_check_server_def quiet_call quiet_fields
      bnd_def ret_def try_except_def try_finally_def global_logger_True)

lemma quiet_adb_check_preconditions:
  "fst (adb_check_preconditions quiet True True []) = Returns True"
  by (simp add: adb_check_preconditions_def quiet_adb_checks bnd_def try_except_def ret_def
      global_logger_True)



text \<open>
  C7 as stated fails: with port 8000 taken and port 8001 free, both \<open>check_server\<close>
  functions return \<open>False\<close> after the failed start on port 8000, and start no server on
  port 8001.
\<close>

theorem check_server_fallback_counterexample:
  "raises port_busy [Get_ip, Server_start 8000] (Server_start 8001) = None
   \<and> adb_check_server port_busy True [] = (Returns False, [Get_ip, Server_start 8000])
   \<and> check_server port_busy [] =
       (Returns False, [DM_create, DM_forward, Adb_forward_list, Marionette_create,
                        Marionette_start_session, Wait_b2g_ready, Get_ip, Server_start 8000])"
  using port_busy_adb port_busy_harness by (simp add: port_busy_def quiet_def)

text \<open>
  C7, as amended. There is no fall-back to the secondary port. If the probe server does
  not start on port 8000, because the address is in use or for any other reason,
  \<open>check_server\<close> returns \<open>False\<close> at once and starts no server on port 8001, in
  harness.py and in adb\_device\_interface.py (there with the global \<open>logger\<close> bound, as
  \<open>check_server\<close> raises \<open>NameError\<close> at its first statement otherwise). So
  \<open>check_server\<close> returns \<open>True\<close> only if the server has started on port 8000; in
  harness.py, only if on port 8000 and then on port 8001 the server has started, the
  device has loaded the page and gone back, and the server has stopped.
\<close>

theorem check_server_no_fallback:
  "(all_return E tr session_calls \<and> raises E (tr @ session_calls) (Server_start 8000) = Some e \<longrightarrow>
      check_server E tr = (Returns False, tr @ session_calls @ [Server_start 8000]))
   \<and> (raises E tr Get_ip = None \<and> raises E (tr @ [Get_ip]) (Server_start 8000) = Some e \<longrightarrow>
      adb_check_server E True tr = (Returns False, tr @ [Get_ip, Server_start 8000]))
   \<and> (fst (check_server E tr) = Returns True \<longrightarrow>
      all_return E tr (session_calls @ probe_calls 8000 @ probe_calls 8001)
      \<and> snd (check_server E tr) = tr @ session_calls @ probe_calls 8000 @ probe_calls 8001)
   \<and> (fst (adb_check_server E logger_bound tr) = Returns True \<longrightarrow>
      logger_bound \<and> raises E tr Get_ip = None
      \<and> raises E (tr @ [Get_ip]) (Server_start 8000) = None)"
  using check_server_first_port_fails [of E tr e] adb_check_server_first_port_fails [of E tr e]
    check_server_True [of E tr] check_server_all_return [of E tr]
    adb_check_server_True [of E logger_bound tr]
  by blast

text \<open>The amended C7 with port 8000 taken, and with both ports free.\<close>

theorem check_server_no_fallback_witness:
  "all_return port_busy [] session_calls
   \<and> raises port_busy ([] @ session_calls) (Server_start 8000)
       = Some (OtherError ''[Errno 98] Address already in use'')
   \<and> check_server port_busy [] = (Returns False, session_calls @ [Server_start 8000])
   \<and> raises port_busy [] Get_ip = None
   \<and> adb_check_server port_busy True [] = (Returns False, [Get_ip, Server_start 8000])
   \<and> fst (check_server quiet []) = Returns True
   \<and> all_return quiet [] (session_calls @ probe_calls 8000 @ probe_calls 8001)
   \<and> snd (check_server quiet []) = session_calls @ probe_calls 8000 @ probe_calls 8001
   \<and> fst (adb_check_server quiet True []) = Returns True
   \<and> raises quiet ([] @ [Get_ip]) (Server_start 8000) = None"
proof -
  have a: "all_return port_busy [] session_calls"
    by (simp add: session_calls_def port_busy_def quiet_def)
  have b: "raises port_busy ([] @ session_calls) (Server_start 8000)
       = Some (OtherError ''[Errno 98] Address already in use'')"
    by (simp add: port_busy_def quiet_def)
  have c: "raises port_busy [] Get_ip = None"
    by (simp add: port_busy_def quiet_def)
  have d: "raises port_busy ([] @ [Get_ip]) (Server_start 8000)
       = Some (OtherError ''[Errno 98] Address already in use'')"
    by (simp add: port_busy_def quiet_def)
  have q: "fst (check_server quiet []) = Returns True"
    by (simp add: quiet_checks)
  have q': "fst (adb_check_server quiet True []) = Returns True"
    by (simp add: adb_check_server_def quiet_call bnd_def ret_def try_except_def try_finally_def
        global_logger_True)
  have 1: "check_server port_busy [] = (Returns False, session_calls @ [Server_start 8000])
      \<and> adb_check_server port_busy True [] = (Returns False, [Get_ip, Server_start 8000])"
    using check_server_no_fallback [of port_busy "[]" "OtherError ''[Errno 98] Address already in use''"]
      a b c d
    by simp
  have 2: "all_return quiet [] (session_calls @ probe_calls 8000 @ probe_calls 8001)
      \<and> snd (check_server quiet []) = session_calls @ probe_calls 8000 @ probe_calls 8001
      \<and> raises quiet ([] @ [Get_ip]) (Server_start 8000) = None"
    using check_server_no_fallback [of quiet "[]" _ True] q q'
    by simp
  from a b c 1 q q' 2 show ?thesis by blast
qed

lemma quiet_check_preconditions_cfg1:
  "check_preconditions quiet cfg1 tr = (Raises (SystemExit 1), tr @ precondition_calls)"
proof -
  have "check_marionette_installed quiet cfg1 tr
      = (Returns True, tr @ [DM_create, Marionette_install, Time_sleep 10])" for tr
    by (simp add: check_marionette_installed_def install_marionette_def cfg1_def quiet_def
        bnd_def call_def ret_def try_except_def)
  then show ?thesis
    by (simp add: check_preconditions_def precondition_step_def quiet_checks precondition_calls_def
        bnd_def ret_def raise_def try_except_def)
qed

lemma quiet_run_tests_two_suites:
  "run_tests quiet [''suiteA'', ''suiteB:g1''] cfg1 [] =
     (Raises (SystemExit 1),
      [Zip_open, Log_open, Setup_logging, Get_metadata] @ precondition_calls @ exit_calls)"
  by (simp add: run_tests_def run_tests_with_def with_LogManager_def LogManager_enter_def
      top_level_def try_finally_def bnd_def ret_def quiet_call quiet_check_preconditions_cfg1
      quiet_LogManager_exit)

lemma no_backup_block_no_marks:
  "list_all (\<lambda>c. \<not> in_backup_block c) cs \<Longrightarrow> filter is_step_mark cs = []"
  by (induction cs) (auto elim: is_step_mark.elims)

lemma no_backup_block_filter:
  "list_all (\<lambda>c. \<not> in_backup_block c) cs \<Longrightarrow> filter in_backup_block cs = []"
  by (induction cs) auto



end
